theory Spec2Isabelle
  imports Complex_Main
begin

section \<open>JavaScript strings and values\<close>

text \<open>
  A JavaScript string is a sequence of UTF-16 code units; the regular expressions of
  \<^verbatim>\<open>server.js\<close> carry no \<^verbatim>\<open>u\<close> flag, so their character classes range over code
  units. A code unit is modelled as a natural number.
\<close>

type_synonym jschar = nat
type_synonym jsstring = "jschar list"

definition js :: "string \<Rightarrow> jsstring" where
  "js s = map of_char s"

text \<open>The class \<^verbatim>\<open>\s\<close> of ECMAScript (white space and line terminators); \<^verbatim>\<open>trim\<close> strips the same set.\<close>

definition is_space :: "jschar \<Rightarrow> bool" where
  "is_space c \<longleftrightarrow>
     (9 \<le> c \<and> c \<le> 13) \<or> c = 32 \<or> c = 160 \<or> c = 5760 \<or> (8192 \<le> c \<and> c \<le> 8202) \<or>
     c = 8232 \<or> c = 8233 \<or> c = 8239 \<or> c = 8287 \<or> c = 12288 \<or> c = 65279"

definition SP :: jschar where "SP = 32"
definition LF :: jschar where "LF = 10"
definition CR :: jschar where "CR = 13"

definition trim :: "jsstring \<Rightarrow> jsstring" where
  "trim s = rev (dropWhile is_space (rev (dropWhile is_space s)))"

text \<open>\<^verbatim>\<open>s.split(/\s+/)\<close>: every maximal run of white space is one separator; the pieces
  before a leading and after a trailing separator are empty strings.\<close>

function split_ws :: "jsstring \<Rightarrow> jsstring list" where
  "split_ws [] = [[]]"
| "split_ws (c # cs) =
     (if is_space c then [] # split_ws (dropWhile is_space cs)
      else (case split_ws cs of [] \<Rightarrow> [[c]] | t # ts \<Rightarrow> (c # t) # ts))"
  by pat_completeness auto
termination
  by (relation "measure length") (auto simp: le_imp_less_Suc length_dropWhile_le)

text \<open>\<^verbatim>\<open>xs.filter(Boolean)\<close> on an array of strings keeps the non-empty ones.\<close>

definition filter_Boolean :: "jsstring list \<Rightarrow> jsstring list" where
  "filter_Boolean xs = filter (\<lambda>t. t \<noteq> []) xs"

text \<open>\<^verbatim>\<open>xs.join(" ")\<close>.\<close>

fun join_sp :: "jsstring list \<Rightarrow> jsstring" where
  "join_sp [] = []"
| "join_sp [t] = t"
| "join_sp (t # u # ts) = t @ SP # join_sp (u # ts)"

text \<open>The value of \<^verbatim>\<open>req.body.question\<close>: any JSON value, or \<^verbatim>\<open>undefined\<close> when the field is
  missing. Arrays and objects are both truthy and have no \<^verbatim>\<open>trim\<close> method, so one constructor
  stands for them.\<close>

datatype jsvalue =
    JUndefined
  | JNull
  | JBool bool
  | JNumber real
  | JString jsstring
  | JObject

fun falsy :: "jsvalue \<Rightarrow> bool" where
  "falsy JUndefined = True"
| "falsy JNull = True"
| "falsy (JBool b) = (\<not> b)"
| "falsy (JNumber x) = (x = 0)"
| "falsy (JString s) = (s = [])"
| "falsy JObject = False"

datatype error = TypeError | IOError

section \<open>The libraries\<close>

text \<open>
  \<^verbatim>\<open>server.js\<close> calls the string built-ins \<^verbatim>\<open>normalize("NFC")\<close> and \<^verbatim>\<open>toLowerCase\<close>, and
  the packages \<^verbatim>\<open>natural\<close> (stop-word list, Porter stemmer, WordNet lookup, tf-idf) and
  \<^verbatim>\<open>fuse.js\<close>. Their code is outside the repository; the model takes them as parameters,
  collected in one record that every function of the model receives.
\<close>

record faq =
  q :: jsstring
  a :: jsstring

record synset =
  synonyms :: "jsstring list"

record fuse_result =
  item :: faq
  fscore :: real

record lib =
  normalizeNFC :: "jsstring \<Rightarrow> jsstring"
  toLowerCase :: "jsstring \<Rightarrow> jsstring"
  stopwords :: "jsstring list"
  stem :: "jsstring \<Rightarrow> jsstring"
  \<comment> \<open>\<^verbatim>\<open>wordnet.lookup(word, callback)\<close>: the synsets handed to the callback, or \<open>None\<close> when
      the call throws (the rejection is swallowed by \<^verbatim>\<open>.catch(() => {})\<close>)\<close>
  wordnet_lookup :: "jsstring \<Rightarrow> synset list option"
  \<comment> \<open>\<^verbatim>\<open>tfidf.tfidf(terms, i)\<close> over the documents added so far\<close>
  tfidf_measure :: "jsstring list \<Rightarrow> jsstring \<Rightarrow> nat \<Rightarrow> real"
  \<comment> \<open>\<^verbatim>\<open>fuse.search(pattern, {limit})\<close> of a Fuse index built over a collection\<close>
  fuse_search :: "faq list \<Rightarrow> jsstring \<Rightarrow> nat \<Rightarrow> fuse_result list"

section \<open>Text preprocessing\<close>

definition is_az :: "jschar \<Rightarrow> bool" where
  "is_az c \<longleftrightarrow> 97 \<le> c \<and> c \<le> 122"

definition is_digit :: "jschar \<Rightarrow> bool" where
  "is_digit c \<longleftrightarrow> 48 \<le> c \<and> c \<le> 57"

definition is_bangla :: "jschar \<Rightarrow> bool" where
  "is_bangla c \<longleftrightarrow> 2432 \<le> c \<and> c \<le> 2559"

text \<open>\<^verbatim>\<open>normalized.replace(/[^a-z\u0980-\u09FF0-9\s]/g, " ")\<close>\<close>

definition clean :: "jsstring \<Rightarrow> jsstring" where
  "clean s = map (\<lambda>c. if is_az c \<or> is_bangla c \<or> is_digit c \<or> is_space c then c else SP) s"

text \<open>\<^verbatim>\<open>/[a-z]/.test(tok)\<close>\<close>

definition has_az :: "jsstring \<Rightarrow> bool" where
  "has_az tok = list_ex is_az tok"

definition process_token :: "lib \<Rightarrow> jsstring \<Rightarrow> jsstring" where
  "process_token L tok =
     (if has_az tok then
        (if tok \<in> set (stopwords L) then [] else stem L tok)
      else tok)"

text \<open>The array \<^verbatim>\<open>processed\<close> of \<^verbatim>\<open>preprocess\<close> (lines 203-221).\<close>

definition processed :: "lib \<Rightarrow> jsstring \<Rightarrow> jsstring list" where
  "processed L text =
     (let normalized = toLowerCase L (normalizeNFC L text);
          cleaned = clean normalized;
          tokens = filter_Boolean (split_ws cleaned)
      in filter_Boolean (map (process_token L) tokens))"

definition preprocess :: "lib \<Rightarrow> jsstring \<Rightarrow> jsstring" where
  "preprocess L text = (if text = [] then [] else join_sp (processed L text))"

section \<open>Query expansion\<close>

text \<open>A JavaScript \<^verbatim>\<open>Set\<close> of strings keeps its members in insertion order; \<^verbatim>\<open>add\<close> of a
  member already present changes nothing. It is modelled as the list \<^verbatim>\<open>Array.from\<close> returns.\<close>

definition Set_add :: "jsstring list \<Rightarrow> jsstring \<Rightarrow> jsstring list" where
  "Set_add S x = (if x \<in> set S then S else S @ [x])"

definition new_Set :: "jsstring list \<Rightarrow> jsstring list" where
  "new_Set xs = foldl Set_add [] xs"

text \<open>\<^verbatim>\<open>.replace(/[^a-z\s]/g, " ")\<close>\<close>

definition keep_az :: "jsstring \<Rightarrow> jsstring" where
  "keep_az s = map (\<lambda>c. if is_az c \<or> is_space c then c else SP) s"

text \<open>The array \<^verbatim>\<open>words\<close> of \<^verbatim>\<open>expandQuery\<close> (lines 228-232).\<close>

definition query_words :: "lib \<Rightarrow> jsstring \<Rightarrow> jsstring list" where
  "query_words L query = filter_Boolean (split_ws (keep_az (toLowerCase L query)))"

text \<open>The callback of \<^verbatim>\<open>wordnet.lookup\<close> (lines 239-243): every synonym of every result that
  does not include a space is lower-cased and added.\<close>

definition add_synonym :: "lib \<Rightarrow> jsstring list \<Rightarrow> jsstring \<Rightarrow> jsstring list" where
  "add_synonym L S s = (if SP \<notin> set s then Set_add S (toLowerCase L s) else S)"

definition add_results :: "lib \<Rightarrow> jsstring list \<Rightarrow> synset list \<Rightarrow> jsstring list" where
  "add_results L S results = foldl (\<lambda>S r. foldl (add_synonym L) S (synonyms r)) S results"

definition lookup_word :: "lib \<Rightarrow> jsstring list \<Rightarrow> jsstring \<Rightarrow> jsstring list" where
  "lookup_word L S word =
     (case wordnet_lookup L word of None \<Rightarrow> S | Some results \<Rightarrow> add_results L S results)"

text \<open>The set \<^verbatim>\<open>expanded\<close> after the loop over \<^verbatim>\<open>words\<close>.\<close>

definition expanded :: "lib \<Rightarrow> jsstring \<Rightarrow> jsstring list" where
  "expanded L query = (let words = query_words L query in foldl (lookup_word L) (new_Set words) words)"

definition expandQuery :: "lib \<Rightarrow> jsstring \<Rightarrow> jsstring" where
  "expandQuery L query = (if query = [] then [] else join_sp (expanded L query))"

text \<open>Every synonym that the lookups of the query's words hand to the callback, whether
  the callback keeps it or not.\<close>

definition returned_synonyms :: "lib \<Rightarrow> jsstring \<Rightarrow> jsstring list" where
  "returned_synonyms L query =
     concat (map (\<lambda>word. case wordnet_lookup L word of
                              None \<Rightarrow> []
                            | Some results \<Rightarrow> concat (map synonyms results))
                 (query_words L query))"

section \<open>Loading the corpus\<close>

record state =
  faqs :: "faq list"
  documents :: "jsstring list"   \<comment> \<open>\<^verbatim>\<open>tfidf.documents\<close>: the preprocessed questions\<close>
  fuse :: "faq list option"      \<comment> \<open>the collection the Fuse index was built over, \<open>None\<close> for \<^verbatim>\<open>null\<close>\<close>
  failCount :: int

definition FAIL_LIMIT :: int where "FAIL_LIMIT = 3"

text \<open>\<^verbatim>\<open>raw.replace(/\r\n/g, "\n")\<close>\<close>

fun replace_crlf :: "jsstring \<Rightarrow> jsstring" where
  "replace_crlf (c # d # cs) =
     (if c = CR \<and> d = LF then LF # replace_crlf cs else c # replace_crlf (d # cs))"
| "replace_crlf cs = cs"

definition starts_with :: "jsstring \<Rightarrow> jsstring \<Rightarrow> bool" where
  "starts_with p s \<longleftrightarrow> take (length p) s = p"

text \<open>
  The regular expression \<^verbatim>\<open>/Q:\s*([^\n]+)\nA:\s*([\s\S]*?)(?=\nQ:|$)/g\<close>, piece by piece.

  \<^verbatim>\<open>([\s\S]*?)(?=\nQ:|$)\<close>: the shortest prefix after which the input ends or continues with a
  line feed and \<^verbatim>\<open>Q:\<close>. It always matches, at the latest at the end of the input.
\<close>

fun lazy_answer :: "jsstring \<Rightarrow> jsstring \<times> jsstring" where
  "lazy_answer [] = ([], [])"
| "lazy_answer (c # cs) =
     (if starts_with (js ''\<newline>Q:'') (c # cs) then ([], c # cs)
      else (case lazy_answer cs of (cap, rest) \<Rightarrow> (c # cap, rest)))"

text \<open>\<^verbatim>\<open>([^\n]+)\nA:\s*\<close> followed by the answer. The greedy class takes the whole run up to
  the next line feed; a shorter run is followed by a character that is not a line feed, so
  backtracking into it never helps. The greedy \<^verbatim>\<open>\s*\<close> after \<^verbatim>\<open>A:\<close> is never given back,
  because what follows it always matches.\<close>

definition match_line :: "jsstring \<Rightarrow> (jsstring \<times> jsstring \<times> jsstring) option" where
  "match_line s =
     (let qcap = takeWhile (\<lambda>c. c \<noteq> LF) s; rest = dropWhile (\<lambda>c. c \<noteq> LF) s
      in if qcap \<noteq> [] \<and> starts_with (js ''\<newline>A:'') rest
         then (case lazy_answer (dropWhile is_space (drop 3 rest)) of
                 (acap, rest') \<Rightarrow> Some (qcap, acap, rest'))
         else None)"

text \<open>The greedy \<^verbatim>\<open>\s*\<close> after \<^verbatim>\<open>Q:\<close> first takes the whole run of white space (\<open>n\<close>
  characters) and gives characters back one at a time while the rest fails to match.\<close>

fun match_ws :: "nat \<Rightarrow> jsstring \<Rightarrow> (jsstring \<times> jsstring \<times> jsstring) option" where
  "match_ws 0 s = match_line s"
| "match_ws (Suc n) s =
     (case match_line (drop (Suc n) s) of Some m \<Rightarrow> Some m | None \<Rightarrow> match_ws n s)"

text \<open>A match attempt at the start of \<open>s\<close>: the two captures and the number of characters
  the match consumed (the look-ahead consumes none).\<close>

definition match_at :: "jsstring \<Rightarrow> (jsstring \<times> jsstring \<times> nat) option" where
  "match_at s =
     (if starts_with (js ''Q:'') s then
        (let s' = drop 2 s in
         case match_ws (length (takeWhile is_space s')) s' of
           None \<Rightarrow> None
         | Some (qcap, acap, rest) \<Rightarrow> Some (qcap, acap, length s - length rest))
      else None)"

text \<open>The loop \<^verbatim>\<open>while ((match = regex.exec(text)) !== null)\<close>: \<^verbatim>\<open>exec\<close> tries every start
  position from \<^verbatim>\<open>lastIndex\<close> on and sets \<^verbatim>\<open>lastIndex\<close> to the end of the match. \<open>skip\<close>
  counts the characters of the current position that the previous match consumed.\<close>

fun exec_loop :: "nat \<Rightarrow> jsstring \<Rightarrow> faq list" where
  "exec_loop skip [] = []"
| "exec_loop skip (c # cs) =
     (if 0 < skip then exec_loop (skip - 1) cs
      else (case match_at (c # cs) of
              None \<Rightarrow> exec_loop 0 cs
            | Some (qcap, acap, n) \<Rightarrow> \<lparr>q = trim qcap, a = trim acap\<rparr> # exec_loop (n - 1) cs))"

text \<open>\<^verbatim>\<open>loadFaqs\<close> (lines 174-199). \<open>file\<close> is what \<^verbatim>\<open>fs.readFileSync("faq.txt", "utf-8")\<close>
  does: it throws or returns the contents. The read is the first statement, before any
  assignment to \<^verbatim>\<open>faqs\<close>, \<^verbatim>\<open>tfidf.documents\<close> or \<^verbatim>\<open>fuse\<close>.\<close>

definition loadFaqs :: "lib \<Rightarrow> error + jsstring \<Rightarrow> state \<Rightarrow> error + state" where
  "loadFaqs L file st =
     (case file of
        Inl e \<Rightarrow> Inl e
      | Inr raw \<Rightarrow>
          (let text = replace_crlf raw;
               fs = exec_loop 0 text
           in Inr (st\<lparr>faqs := fs,
                      documents := map (\<lambda>f. preprocess L (q f)) fs,
                      fuse := Some fs\<rparr>)))"

section \<open>Matching\<close>

record scored =
  index :: nat
  score :: real

record query_result =
  answer :: "jsstring option"      \<comment> \<open>\<open>None\<close> for \<^verbatim>\<open>null\<close>\<close>
  suggestions :: "jsstring list"

text \<open>\<^verbatim>\<open>tfidf.tfidfs(query, callback)\<close> calls the callback once per document, in document
  order, with the document's position and its measure.\<close>

definition tfidfs :: "lib \<Rightarrow> jsstring list \<Rightarrow> jsstring \<Rightarrow> scored list" where
  "tfidfs L docs query =
     map (\<lambda>i. \<lparr>index = i, score = tfidf_measure L docs query i\<rparr>) [0..<length docs]"

text \<open>\<^verbatim>\<open>scores.sort((a, b) => b.score - a.score)\<close>: a stable sort, highest score first.
  Scores are real numbers in the model; the rounding of IEEE doubles is not modelled.\<close>

definition sort_desc :: "scored list \<Rightarrow> scored list" where
  "sort_desc scores = sort_key (\<lambda>s. - score s) scores"

text \<open>The string \<^verbatim>\<open>query\<close> of \<^verbatim>\<open>findAnswers\<close> (lines 259-261).\<close>

definition tfidf_query :: "lib \<Rightarrow> jsstring \<Rightarrow> jsstring" where
  "tfidf_query L userQuestion =
     (let processed = preprocess L userQuestion;
          expansion = preprocess L (expandQuery L userQuestion)
      in trim (processed @ SP # expansion))"

text \<open>The array \<^verbatim>\<open>best\<close> (lines 263-269).\<close>

definition best_scores :: "lib \<Rightarrow> state \<Rightarrow> jsstring \<Rightarrow> nat \<Rightarrow> scored list" where
  "best_scores L st userQuestion k =
     take k (sort_desc (tfidfs L (documents st) (tfidf_query L userQuestion)))"

text \<open>\<^verbatim>\<open>faqs[i]\<close> followed by a property access: out of range the element is
  \<^verbatim>\<open>undefined\<close> and the access throws a TypeError.\<close>

definition faq_at :: "faq list \<Rightarrow> nat \<Rightarrow> error + faq" where
  "faq_at fs i = (if i < length fs then Inr (fs ! i) else Inl TypeError)"

fun faqs_at :: "faq list \<Rightarrow> nat list \<Rightarrow> error + faq list" where
  "faqs_at fs [] = Inr []"
| "faqs_at fs (i # is) =
     (case faq_at fs i of
        Inl e \<Rightarrow> Inl e
      | Inr f \<Rightarrow> (case faqs_at fs is of Inl e \<Rightarrow> Inl e | Inr gs \<Rightarrow> Inr (f # gs)))"

definition TFIDF_STRONG :: real where "TFIDF_STRONG = 0.3"
definition TFIDF_WEAK :: real where "TFIDF_WEAK = 0.2"
definition TFIDF_SCORE_GAP :: real where "TFIDF_SCORE_GAP = 0.08"
definition FUSE_ACCEPT_THRESHOLD :: real where "FUSE_ACCEPT_THRESHOLD = 0.3"

text \<open>The fuzzy fallback (lines 297-318). \<^verbatim>\<open>fuse.search\<close> on \<^verbatim>\<open>null\<close> throws.\<close>

definition fuzzy_fallback :: "lib \<Rightarrow> state \<Rightarrow> jsstring \<Rightarrow> nat \<Rightarrow> error + query_result" where
  "fuzzy_fallback L st userQuestion k =
     (case fuse st of
        None \<Rightarrow> Inl TypeError
      | Some coll \<Rightarrow>
          (let fuseResults = fuse_search L coll userQuestion k;
               suggestions = map (\<lambda>r. q (item r)) fuseResults
           in if 0 < length fuseResults \<and> fscore (fuseResults ! 0) \<le> FUSE_ACCEPT_THRESHOLD then
                (if 1 < length fuseResults \<and>
                    \<bar>fscore (fuseResults ! 0) - fscore (fuseResults ! 1)\<bar> < 0.05
                 then Inr \<lparr>answer = None, suggestions = suggestions\<rparr>
                 else Inr \<lparr>answer = Some (a (item (fuseResults ! 0))), suggestions = suggestions\<rparr>)
              else Inr \<lparr>answer = None, suggestions = suggestions\<rparr>))"

text \<open>\<^verbatim>\<open>gap\<close> (line 280): \<^verbatim>\<open>second\<close> is \<^verbatim>\<open>undefined\<close> when \<^verbatim>\<open>best\<close> has one element.\<close>

definition score_gap :: "scored list \<Rightarrow> real" where
  "score_gap best =
     (if 1 < length best then score (best ! 0) - score (best ! 1) else score (best ! 0))"

text \<open>The body of \<^verbatim>\<open>findAnswers\<close> after the guard (lines 259-318).\<close>

definition match_question :: "lib \<Rightarrow> state \<Rightarrow> jsstring \<Rightarrow> nat \<Rightarrow> error + query_result" where
  "match_question L st userQuestion k =
     (let best = best_scores L st userQuestion k in
      if 0 < length best \<and> score (best ! 0) \<ge> TFIDF_STRONG \<and> score_gap best \<ge> TFIDF_SCORE_GAP then
        (case faq_at (faqs st) (index (best ! 0)) of
           Inl e \<Rightarrow> Inl e
         | Inr f \<Rightarrow> Inr \<lparr>answer = Some (a f), suggestions = []\<rparr>)
      else if 0 < length best \<and> score (best ! 0) \<ge> TFIDF_WEAK then
        (case faq_at (faqs st) (index (best ! 0)) of
           Inl e \<Rightarrow> Inl e
         | Inr f \<Rightarrow>
             (case faqs_at (faqs st) (map index best) of
                Inl e \<Rightarrow> Inl e
              | Inr fs \<Rightarrow> Inr \<lparr>answer = Some (a f), suggestions = map q fs\<rparr>))
      else fuzzy_fallback L st userQuestion k)"

text \<open>\<^verbatim>\<open>findAnswers\<close> (lines 254-319). The guard \<^verbatim>\<open>!userQuestion || !userQuestion.trim()\<close>
  returns for every falsy value; on a truthy value that is not a string the call of
  \<^verbatim>\<open>trim\<close> throws.\<close>

fun findAnswers :: "lib \<Rightarrow> state \<Rightarrow> jsvalue \<Rightarrow> nat \<Rightarrow> error + query_result" where
  "findAnswers L st (JString s) k =
     (if s = [] \<or> trim s = [] then Inr \<lparr>answer = None, suggestions = []\<rparr>
      else match_question L st s k)"
| "findAnswers L st v k =
     (if falsy v then Inr \<lparr>answer = None, suggestions = []\<rparr> else Inl TypeError)"

section \<open>The endpoints\<close>

datatype response =
    Json nat query_result   \<comment> \<open>status code and body of \<^verbatim>\<open>/ask\<close>\<close>
  | Status nat string       \<comment> \<open>status code and \<^verbatim>\<open>status\<close> field of \<^verbatim>\<open>/reload\<close>\<close>

definition escalation :: query_result where
  "escalation =
     \<lparr>answer = Some (js (''Sorry, I wasn'' @ [CHR 0x27] @ ''t able to answer your question after multiple tries. Call 16221 (toll free) to reach our support team for further detailed help.'')),
      suggestions = []\<rparr>"

text \<open>\<^verbatim>\<open>if (result.answer)\<close>: \<^verbatim>\<open>null\<close> and the empty string are falsy.\<close>

definition truthy_answer :: "jsstring option \<Rightarrow> bool" where
  "truthy_answer x = (case x of None \<Rightarrow> False | Some s \<Rightarrow> s \<noteq> [])"

text \<open>The handler of \<^verbatim>\<open>POST /ask\<close> (lines 323-349); \<^verbatim>\<open>findAnswers(question)\<close> runs with the
  default \<^verbatim>\<open>k = 3\<close>.\<close>

definition ask :: "lib \<Rightarrow> state \<Rightarrow> jsvalue \<Rightarrow> state \<times> response" where
  "ask L st question =
     (case findAnswers L st question 3 of
        Inl e \<Rightarrow> (st, Json 500 \<lparr>answer = None, suggestions = []\<rparr>)
      | Inr result \<Rightarrow>
          if truthy_answer (answer result) then (st\<lparr>failCount := 0\<rparr>, Json 200 result)
          else
            (let st1 = st\<lparr>failCount := failCount st + 1\<rparr> in
             if failCount st1 \<ge> FAIL_LIMIT then (st1\<lparr>failCount := 0\<rparr>, Json 200 escalation)
             else (st1, Json 200 result)))"

text \<open>The handler of \<^verbatim>\<open>GET /reload\<close> (lines 353-360).\<close>

definition reload :: "lib \<Rightarrow> state \<Rightarrow> error + jsstring \<Rightarrow> state \<times> response" where
  "reload L st file =
     (case loadFaqs L file st of
        Inr st' \<Rightarrow> (st', Status 200 ''FAQ reloaded'')
      | Inl e \<Rightarrow> (st, Status 500 ''reload failed''))"

text \<open>The server handles one request after the other.\<close>

datatype request = Ask jsvalue | Reload "error + jsstring"

fun handle :: "lib \<Rightarrow> state \<Rightarrow> request \<Rightarrow> state \<times> response" where
  "handle L st (Ask question) = ask L st question"
| "handle L st (Reload file) = reload L st file"

fun serve :: "lib \<Rightarrow> state \<Rightarrow> request list \<Rightarrow> state \<times> response list" where
  "serve L st [] = (st, [])"
| "serve L st (r # rs) =
     (case handle L st r of
        (st1, out) \<Rightarrow> (case serve L st1 rs of (st2, outs) \<Rightarrow> (st2, out # outs)))"

section \<open>The single-threshold variant\<close>

text \<open>
  The file holds a second \<^verbatim>\<open>findAnswers\<close> (lines 492-556) with one tf-idf threshold, a Fuse
  acceptance threshold of 0.35 and a generic prompt when nothing is found. Its
  \<^verbatim>\<open>expandQuery\<close> (lines 459-489) normalizes before lower-casing; its \<^verbatim>\<open>preprocess\<close>
  (lines 431-455) differs only by a \<^verbatim>\<open>try\<close> around the stemmer, which the model's total
  \<open>stem\<close> makes immaterial.
\<close>

definition expandQuery_alt :: "lib \<Rightarrow> jsstring \<Rightarrow> jsstring" where
  "expandQuery_alt L rawQuery =
     (if rawQuery = [] then [] else join_sp (expanded L (normalizeNFC L rawQuery)))"

definition best_scores_alt :: "lib \<Rightarrow> state \<Rightarrow> jsstring \<Rightarrow> nat \<Rightarrow> scored list" where
  "best_scores_alt L st userQuestion k =
     (let processedQuestion = preprocess L userQuestion;
          expansionProcessed = preprocess L (expandQuery_alt L userQuestion);
          queryForTfidf = trim (processedQuestion @ SP # expansionProcessed)
      in take k (sort_desc (tfidfs L (documents st) queryForTfidf)))"

definition TFIDF_THRESHOLD :: real where "TFIDF_THRESHOLD = 0.15"
definition FUSE_ACCEPT_THRESHOLD_alt :: real where "FUSE_ACCEPT_THRESHOLD_alt = 0.35"

text \<open>\<^verbatim>\<open>best.map((s) => faqs[s.index]?.q).filter(Boolean)\<close>: an index out of range gives
  \<^verbatim>\<open>undefined\<close>, which the filter drops together with empty questions.\<close>

definition questions_of :: "faq list \<Rightarrow> scored list \<Rightarrow> jsstring list" where
  "questions_of fs best =
     filter_Boolean (map (\<lambda>s. if index s < length fs then q (fs ! index s) else []) best)"

text \<open>\<^verbatim>\<open>faqs.slice(0, k).map((f) => f.q)\<close>\<close>

definition first_questions :: "state \<Rightarrow> nat \<Rightarrow> jsstring list" where
  "first_questions st k = map q (take k (faqs st))"

definition fuzzy_fallback_alt :: "lib \<Rightarrow> state \<Rightarrow> jsstring \<Rightarrow> nat \<Rightarrow> error + query_result" where
  "fuzzy_fallback_alt L st userQuestion k =
     (case fuse st of
        None \<Rightarrow> Inr \<lparr>answer = None, suggestions = first_questions st k\<rparr>
      | Some coll \<Rightarrow>
          (let fuseResults = fuse_search L coll userQuestion k;
               suggestions = take k (map (\<lambda>r. q (item r)) fuseResults)
           in if 0 < length fuseResults \<and> fscore (fuseResults ! 0) \<le> FUSE_ACCEPT_THRESHOLD_alt then
                Inr \<lparr>answer = Some (a (item (fuseResults ! 0))), suggestions = suggestions\<rparr>
              else
                Inr \<lparr>answer = None,
                     suggestions = (if 0 < length suggestions then suggestions
                                    else first_questions st k)\<rparr>))"

fun findAnswers_alt :: "lib \<Rightarrow> state \<Rightarrow> jsvalue \<Rightarrow> nat \<Rightarrow> error + query_result" where
  "findAnswers_alt L st (JString s) k =
     (if s = [] \<or> trim s = [] then Inr \<lparr>answer = None, suggestions = []\<rparr>
      else
        (let best = best_scores_alt L st s k in
         if 0 < length best \<and> score (best ! 0) \<ge> TFIDF_THRESHOLD then
           (case faq_at (faqs st) (index (best ! 0)) of
              Inl e \<Rightarrow> Inl e
            | Inr f \<Rightarrow> Inr \<lparr>answer = Some (a f), suggestions = questions_of (faqs st) best\<rparr>)
         else fuzzy_fallback_alt L st s k))"
| "findAnswers_alt L st v k =
     (if falsy v then Inr \<lparr>answer = None, suggestions = []\<rparr> else Inl TypeError)"

section \<open>A library instance for running the model\<close>

text \<open>
  The theorems below hold for every library. To run the model on concrete requests, the
  parameters are instantiated with small executable functions: lower-casing of the ASCII
  letters, the identity for normalization (text without combining characters is in normal
  form), the first step of the Porter stemmer (plural endings), a few entries of the
  stop-word list of \<^verbatim>\<open>natural\<close>, a three-word thesaurus, the term-frequency part of
  tf-idf with every inverse document frequency taken as 1, and a fuzzy search that scores
  an entry by the share of the pattern's characters that its question lacks, drops the
  entries beyond the configured threshold 0.45 and orders the others by score. The
  thesaurus holds two of the synonym sets WordNet has for \<^verbatim>\<open>book\<close>; WordNet writes a
  lemma of several words with underscores between the words (\<^verbatim>\<open>record_book\<close>,
  \<^verbatim>\<open>Good_Book\<close>), never with spaces.
\<close>

definition ascii_lower :: "jsstring \<Rightarrow> jsstring" where
  "ascii_lower s = map (\<lambda>c. if 65 \<le> c \<and> c \<le> 90 then c + 32 else c) s"

definition ends_with :: "jsstring \<Rightarrow> jsstring \<Rightarrow> bool" where
  "ends_with suffix w \<longleftrightarrow> starts_with (rev suffix) (rev w)"

definition porter_step1a :: "jsstring \<Rightarrow> jsstring" where
  "porter_step1a w =
     (if ends_with (js ''sses'') w then butlast (butlast w)
      else if ends_with (js ''ies'') w then butlast (butlast w)
      else if ends_with (js ''ss'') w then w
      else if ends_with (js ''s'') w \<and> 2 < length w then butlast w
      else w)"

definition sample_stopwords :: "jsstring list" where
  "sample_stopwords =
     map js [''a'', ''about'', ''are'', ''do'', ''how'', ''i'', ''is'', ''make'', ''my'',
             ''other'', ''the'', ''to'', ''what'', ''you'', ''your'']"

definition sample_wordnet :: "jsstring \<Rightarrow> synset list option" where
  "sample_wordnet word =
     (if word = js ''book'' then
        Some [\<lparr>synonyms = [js ''record'', js ''record_book'', js ''book'']\<rparr>,
              \<lparr>synonyms = [js ''Bible'', js ''Christian_Bible'', js ''Book'', js ''Good_Book'',
                           js ''Word_of_God'']\<rparr>]
      else if word = js ''reset'' then Some [\<lparr>synonyms = [js ''reset'']\<rparr>]
      else if word = js ''broken'' then None
      else Some [])"

definition term_frequency :: "jsstring list \<Rightarrow> jsstring \<Rightarrow> nat \<Rightarrow> real" where
  "term_frequency docs query i =
     (if i < length docs then
        real (sum_list (map (count_list (filter_Boolean (split_ws (docs ! i))))
                            (filter_Boolean (split_ws query))))
      else 0)"

definition char_distance :: "jsstring \<Rightarrow> jsstring \<Rightarrow> real" where
  "char_distance p t =
     (let cp = remdups (ascii_lower p); ct = ascii_lower t
      in if cp = [] then 1
         else real (length (filter (\<lambda>c. c \<notin> set ct) cp)) / real (length cp))"

definition char_search :: "faq list \<Rightarrow> jsstring \<Rightarrow> nat \<Rightarrow> fuse_result list" where
  "char_search coll pattern limit =
     take limit (sort_key fscore
       (filter (\<lambda>r. fscore r \<le> 0.45)
          (map (\<lambda>f. \<lparr>item = f, fscore = char_distance pattern (q f)\<rparr>) coll)))"

definition sample_lib :: lib where
  "sample_lib =
     \<lparr>normalizeNFC = (\<lambda>s. s),
      toLowerCase = ascii_lower,
      stopwords = sample_stopwords,
      stem = porter_step1a,
      wordnet_lookup = sample_wordnet,
      tfidf_measure = term_frequency,
      fuse_search = char_search\<rparr>"

text \<open>The same library with every measure divided by 16: the scores of a short query then
  lie around the thresholds, as tf-idf measures do.\<close>

definition scaled_frequency :: "jsstring list \<Rightarrow> jsstring \<Rightarrow> nat \<Rightarrow> real" where
  "scaled_frequency docs query i = term_frequency docs query i / 16"

definition sample_lib_scaled :: lib where
  "sample_lib_scaled = sample_lib\<lparr>tfidf_measure := scaled_frequency\<rparr>"

text \<open>The state before the first \<^verbatim>\<open>loadFaqs()\<close>, and the state after a successful one.\<close>

definition initial :: state where
  "initial = \<lparr>faqs = [], documents = [], fuse = None, failCount = 0\<rparr>"

definition loaded :: "lib \<Rightarrow> jsstring \<Rightarrow> state" where
  "loaded L raw = (case loadFaqs L (Inr raw) initial of Inr st \<Rightarrow> st | Inl e \<Rightarrow> initial)"

text \<open>Four corpus files: the example of the specification, a file with the same question
  twice, a file whose last answer is empty, and a file of four entries.\<close>

definition faq_txt :: jsstring where
  "faq_txt = js (''Q: How do I reset my password?\<newline>A: Use the reset link.\<newline>'' @
                 ''Q: How do I contact support?\<newline>A: Call 16221.\<newline>'')"

definition faq_txt_twice :: jsstring where
  "faq_txt_twice = js (''Q: Opening hours?\<newline>A: 9 to 5.\<newline>'' @
                       ''Q: Opening hours?\<newline>A: Closed on Friday.\<newline>'')"

definition faq_txt_blank :: jsstring where
  "faq_txt_blank = js ''Q: Opening hours?\<newline>A:''"

definition faq_txt_four :: jsstring where
  "faq_txt_four = js (''Q: How do I reset my password?\<newline>A: Use the reset link.\<newline>'' @
                      ''Q: How do I change my password?\<newline>A: Open the settings page.\<newline>'' @
                      ''Q: How do I contact support?\<newline>A: Call 16221.\<newline>'' @
                      ''Q: Where is the password reset email?\<newline>A: Look in the spam folder.\<newline>'')"

section \<open>Rules for running the model\<close>

text \<open>The definitions, collected for the simplifier: the closed examples below are
  evaluated by rewriting with them.\<close>

lemmas strdefs =
  js_def is_space_def SP_def LF_def CR_def trim_def filter_Boolean_def is_az_def is_digit_def
  is_bangla_def clean_def has_az_def process_token_def processed_def preprocess_def

lemmas libdefs =
  sample_lib_def ascii_lower_def ends_with_def starts_with_def porter_step1a_def
  sample_stopwords_def sample_wordnet_def term_frequency_def char_distance_def char_search_def

lemmas expdefs =
  Set_add_def new_Set_def keep_az_def query_words_def add_synonym_def add_results_def
  lookup_word_def expanded_def expandQuery_def

lemmas loaddefs = match_line_def match_at_def loadFaqs_def loaded_def initial_def

lemmas matchdefs =
  tfidfs_def sort_desc_def tfidf_query_def best_scores_def faq_at_def TFIDF_STRONG_def
  TFIDF_WEAK_def TFIDF_SCORE_GAP_def FUSE_ACCEPT_THRESHOLD_def fuzzy_fallback_def score_gap_def
  match_question_def

lemmas altdefs =
  expandQuery_alt_def best_scores_alt_def TFIDF_THRESHOLD_def FUSE_ACCEPT_THRESHOLD_alt_def
  questions_of_def first_questions_def fuzzy_fallback_alt_def

section \<open>Strings\<close>

lemma trim_empty_iff: "trim s = [] \<longleftrightarrow> (\<forall>c\<in>set s. is_space c)"
proof -
  have "trim s = [] \<longleftrightarrow> (\<forall>c\<in>set (dropWhile is_space s). is_space c)"
    by (simp add: trim_def dropWhile_eq_Nil_conv)
  also have "\<dots> \<longleftrightarrow> dropWhile is_space s = []"
  proof
    assume all: "\<forall>c\<in>set (dropWhile is_space s). is_space c"
    show "dropWhile is_space s = []"
    proof (cases "dropWhile is_space s")
      case Nil
      then show ?thesis .
    next
      case (Cons c cs)
      then have "\<not> is_space c"
        using hd_dropWhile [of is_space s] by simp
      with all Cons show ?thesis by simp
    qed
  qed (auto dest: set_dropWhileD)
  also have "\<dots> \<longleftrightarrow> (\<forall>c\<in>set s. is_space c)"
    by (simp add: dropWhile_eq_Nil_conv)
  finally show ?thesis .
qed

lemma is_space_SP: "is_space SP"
  by (simp add: is_space_def SP_def)

lemma allowed_not_space: "is_az c \<or> is_digit c \<or> is_bangla c \<Longrightarrow> \<not> is_space c"
  by (auto simp: is_az_def is_digit_def is_bangla_def is_space_def)

lemma split_ws_no_space: "t \<in> set (split_ws s) \<Longrightarrow> c \<in> set t \<Longrightarrow> \<not> is_space c"
proof (induction s arbitrary: t rule: split_ws.induct)
  case 1
  then show ?case by simp
next
  case (2 d ds)
  show ?case
  proof (cases "is_space d")
    case True
    with 2 show ?thesis by auto
  next
    case False
    show ?thesis
    proof (cases "split_ws ds")
      case Nil
      with 2 False show ?thesis by auto
    next
      case (Cons u us)
      with 2(3) False have "t = d # u \<or> t \<in> set us" by simp
      then show ?thesis
      proof
        assume "t = d # u"
        with 2(4) have "c = d \<or> c \<in> set u" by simp
        then show ?thesis using False 2(2) [OF False, of u] Cons by auto
      next
        assume "t \<in> set us"
        then show ?thesis using 2(2) [OF False, of t] Cons 2(4) by simp
      qed
    qed
  qed
qed

lemma split_ws_word: "\<forall>c\<in>set t. \<not> is_space c \<Longrightarrow> split_ws t = [t]"
  by (induction t) simp_all

lemma split_ws_word_sep:
  "\<forall>c\<in>set t. \<not> is_space c \<Longrightarrow> is_space d \<Longrightarrow>
   split_ws (t @ d # rest) = t # split_ws (dropWhile is_space rest)"
  by (induction t) simp_all

lemma join_sp_Cons: "join_sp (t # ts) = (if ts = [] then t else t @ SP # join_sp ts)"
  by (cases ts) simp_all

lemma dropWhile_join_sp:
  assumes "ts \<noteq> []" "\<forall>t\<in>set ts. t \<noteq> [] \<and> (\<forall>c\<in>set t. \<not> is_space c)"
  shows "dropWhile is_space (join_sp ts) = join_sp ts"
proof -
  obtain t us where ts: "ts = t # us" using assms(1) by (cases ts) auto
  then obtain c cs where t: "t = c # cs" using assms(2) by (cases t) auto
  have "\<not> is_space c" using assms(2) ts t by simp
  then show ?thesis
    unfolding ts join_sp_Cons t by simp
qed

lemma tokens_join_sp:
  assumes "\<forall>t\<in>set ts. t \<noteq> [] \<and> (\<forall>c\<in>set t. \<not> is_space c)"
  shows "filter_Boolean (split_ws (join_sp ts)) = ts"
  using assms
proof (induction ts)
  case Nil
  then show ?case by (simp add: filter_Boolean_def)
next
  case (Cons t ts)
  show ?case
  proof (cases "ts = []")
    case True
    with Cons.prems show ?thesis
      by (simp add: split_ws_word filter_Boolean_def)
  next
    case False
    have "split_ws (join_sp (t # ts)) = t # split_ws (join_sp ts)"
      using Cons.prems False
      by (simp add: join_sp_Cons split_ws_word_sep is_space_SP dropWhile_join_sp)
    then show ?thesis
      using Cons by (simp add: filter_Boolean_def)
  qed
qed

lemma set_join_sp: "c \<in> set (join_sp ts) \<Longrightarrow> c = SP \<or> (\<exists>t\<in>set ts. c \<in> set t)"
  by (induction ts rule: join_sp.induct) auto

lemma clean_id:
  "\<forall>c\<in>set s. is_az c \<or> is_bangla c \<or> is_digit c \<or> is_space c \<Longrightarrow> clean s = s"
  by (simp add: clean_def map_idI)

lemma processed_nonempty: "t \<in> set (processed L x) \<Longrightarrow> t \<noteq> []"
  by (simp add: processed_def Let_def filter_Boolean_def)

section \<open>The expanded set\<close>

lemma set_Set_add: "set (Set_add S x) = insert x (set S)"
  by (auto simp: Set_add_def)

lemma set_foldl_Set_add: "set (foldl Set_add S xs) = set S \<union> set xs"
  by (induction xs arbitrary: S) (auto simp: set_Set_add)

lemma set_new_Set: "set (new_Set xs) = set xs"
  by (simp add: new_Set_def set_foldl_Set_add)

lemma set_foldl_add_synonym:
  "set (foldl (add_synonym L) S ss) =
     set S \<union> set (map (toLowerCase L) (filter (\<lambda>s. SP \<notin> set s) ss))"
  by (induction ss arbitrary: S) (auto simp: add_synonym_def set_Set_add)

lemma set_add_results:
  "set (add_results L S rs) =
     set S \<union> set (map (toLowerCase L) (filter (\<lambda>s. SP \<notin> set s) (concat (map synonyms rs))))"
  unfolding add_results_def
  by (induction rs arbitrary: S) (auto simp: set_foldl_add_synonym)

lemma set_lookup_word:
  "set (lookup_word L S w) =
     set S \<union> set (map (toLowerCase L) (filter (\<lambda>s. SP \<notin> set s)
       (case wordnet_lookup L w of None \<Rightarrow> [] | Some rs \<Rightarrow> concat (map synonyms rs))))"
  by (cases "wordnet_lookup L w") (simp_all add: lookup_word_def set_add_results)

lemma set_foldl_lookup_word:
  "set (foldl (lookup_word L) S ws) =
     set S \<union> set (map (toLowerCase L) (filter (\<lambda>s. SP \<notin> set s)
       (concat (map (\<lambda>w. case wordnet_lookup L w of
                             None \<Rightarrow> [] | Some rs \<Rightarrow> concat (map synonyms rs)) ws))))"
proof (induction ws arbitrary: S)
  case Nil
  then show ?case by simp
next
  case (Cons w ws)
  show ?case
    unfolding foldl_Cons Cons.IH set_lookup_word
    by (simp add: Un_assoc image_Un)
qed

lemma set_expanded:
  "set (expanded L qy) =
     set (query_words L qy) \<union>
     set (map (toLowerCase L) (filter (\<lambda>s. SP \<notin> set s) (returned_synonyms L qy)))"
  unfolding expanded_def Let_def set_foldl_lookup_word set_new_Set returned_synonyms_def ..

section \<open>Scores and ranking\<close>

lemma index_tfidfs: "x \<in> set (tfidfs L docs qy) \<Longrightarrow> index x < length docs"
  by (auto simp: tfidfs_def)


lemma set_sort_desc: "set (sort_desc xs) = set xs"
  by (simp add: sort_desc_def)

lemma best_scores_subset:
  "set (best_scores L st s k) \<subseteq> set (tfidfs L (documents st) (tfidf_query L s))"
  using set_take_subset [of k "sort_desc (tfidfs L (documents st) (tfidf_query L s))"]
  by (simp add: best_scores_def set_sort_desc)


text \<open>The sort is stable and the scores arrive in document order: in the sorted array a
  higher score stands before a lower one, and of two equal scores the one of the earlier
  document stands first. \<open>best\<close> is the first \<open>k\<close> entries of that array.\<close>

lemma insort_ranked:
  fixes f :: "'a \<Rightarrow> real" and g :: "'a \<Rightarrow> nat"
  assumes "sorted_wrt (\<lambda>x y. f x < f y \<or> (f x = f y \<and> g x < g y)) ys"
    and "\<forall>y\<in>set ys. g x < g y"
  shows "sorted_wrt (\<lambda>x y. f x < f y \<or> (f x = f y \<and> g x < g y)) (insort_key f x ys)"
  using assms
proof (induction ys)
  case Nil
  then show ?case by simp
next
  case (Cons y ys)
  show ?case
  proof (cases "f x \<le> f y")
    case True
    have "\<forall>z\<in>set ys. f y \<le> f z" using Cons.prems(1) by auto
    then have "\<forall>z\<in>set (y # ys). f x < f z \<or> (f x = f z \<and> g x < g z)"
      using True Cons.prems(2) by fastforce
    then show ?thesis using True Cons.prems(1) by simp
  next
    case False
    have "sorted_wrt (\<lambda>x y. f x < f y \<or> (f x = f y \<and> g x < g y)) (insort_key f x ys)"
      using Cons by simp
    moreover have "\<forall>z\<in>set (insort_key f x ys). f y < f z \<or> (f y = f z \<and> g y < g z)"
      using False Cons.prems(1) by (auto simp: set_insort_key)
    ultimately show ?thesis using False by simp
  qed
qed

lemma sort_key_ranked:
  fixes f :: "'a \<Rightarrow> real" and g :: "'a \<Rightarrow> nat"
  assumes "sorted_wrt (\<lambda>x y. g x < g y) xs"
  shows "sorted_wrt (\<lambda>x y. f x < f y \<or> (f x = f y \<and> g x < g y)) (sort_key f xs)"
  using assms
proof (induction xs)
  case Nil
  then show ?case by simp
next
  case (Cons x xs)
  have "sort_key f (x # xs) = insort_key f x (sort_key f xs)"
    by (simp add: sort_key_def)
  moreover have "sorted_wrt (\<lambda>x y. f x < f y \<or> (f x = f y \<and> g x < g y)) (insort_key f x (sort_key f xs))"
    using Cons by (intro insort_ranked) auto
  ultimately show ?case by simp
qed

lemma sort_desc_ranked:
  "sorted_wrt (\<lambda>x y. score y < score x \<or> (score x = score y \<and> index x < index y))
     (sort_desc (tfidfs L docs qy))"
proof -
  have "sorted_wrt (\<lambda>x y. index x < index y) (tfidfs L docs qy)"
    by (simp add: tfidfs_def sorted_wrt_map)
  from sort_key_ranked [OF this, of "\<lambda>s. - score s"]
  have "sorted_wrt (\<lambda>x y. - score x < - score y \<or> (- score x = - score y \<and> index x < index y))
     (sort_desc (tfidfs L docs qy))"
    by (simp add: sort_desc_def)
  then show ?thesis
    by (rule sorted_wrt_mono_rel [rotated]) auto
qed

lemma best_scores_ranked:
  "sorted_wrt (\<lambda>x y. score y < score x \<or> (score x = score y \<and> index x < index y))
     (best_scores L st s k)"
  unfolding best_scores_def by (rule sorted_wrt_take) (rule sort_desc_ranked)

lemma best_scores_length:
  "length (best_scores L st s k) = min k (length (documents st))"
  by (simp add: best_scores_def sort_desc_def tfidfs_def min.commute)

lemma best_scores_measure:
  assumes "x \<in> set (best_scores L st s k)"
  shows "index x < length (documents st) \<and>
         score x = tfidf_measure L (documents st) (tfidf_query L s) (index x)"
proof -
  have "x \<in> set (tfidfs L (documents st) (tfidf_query L s))"
    using assms best_scores_subset by blast
  then show ?thesis by (auto simp: tfidfs_def)
qed

lemma best_scores_excluded:
  assumes "i < length (documents st)" "i \<notin> index ` set (best_scores L st s k)"
    and "x \<in> set (best_scores L st s k)"
  shows "tfidf_measure L (documents st) (tfidf_query L s) i < score x \<or>
         (score x = tfidf_measure L (documents st) (tfidf_query L s) i \<and> index x < i)"
proof -
  let ?ys = "sort_desc (tfidfs L (documents st) (tfidf_query L s))"
  let ?e = "\<lparr>index = i, score = tfidf_measure L (documents st) (tfidf_query L s) i\<rparr>"
  have "?e \<in> set (tfidfs L (documents st) (tfidf_query L s))"
    using assms(1) by (simp add: tfidfs_def)
  then have "?e \<in> set ?ys"
    by (simp add: set_sort_desc)
  moreover have "set ?ys = set (take k ?ys) \<union> set (drop k ?ys)"
    by (metis append_take_drop_id set_append)
  moreover have "?e \<notin> set (take k ?ys)"
    using assms(2) by (force simp: best_scores_def)
  ultimately have e: "?e \<in> set (drop k ?ys)" by blast
  have "sorted_wrt (\<lambda>x y. score y < score x \<or> (score x = score y \<and> index x < index y))
     (take k ?ys @ drop k ?ys)"
    using sort_desc_ranked [of L "documents st" "tfidf_query L s"] by simp
  then have "\<forall>x\<in>set (take k ?ys). \<forall>y\<in>set (drop k ?ys).
      score y < score x \<or> (score x = score y \<and> index x < index y)"
    unfolding sorted_wrt_append by blast
  then have "score ?e < score x \<or> (score x = score ?e \<and> index x < index ?e)"
    using e assms(3) unfolding best_scores_def by blast
  then show ?thesis by simp
qed

lemma faqs_at_in_range:
  "\<forall>i\<in>set is. i < length fs \<Longrightarrow> faqs_at fs is = Inr (map (\<lambda>i. fs ! i) is)"
  by (induction "is") (simp_all add: faq_at_def)

lemma faqs_at_Inr:
  "faqs_at fs is = Inr gs \<Longrightarrow> (\<forall>i\<in>set is. i < length fs) \<and> gs = map (\<lambda>i. fs ! i) is"
  by (induction "is" arbitrary: gs) (auto simp: faq_at_def split: if_splits sum.splits)


section \<open>The branches of findAnswers\<close>

lemma findAnswers_blank:
  assumes "falsy v \<or> (\<exists>s. v = JString s \<and> (\<forall>c\<in>set s. is_space c))"
  shows "findAnswers L st v k = Inr \<lparr>answer = None, suggestions = []\<rparr>"
  using assms by (cases v) (auto simp: trim_empty_iff)

lemma findAnswers_nonblank:
  "trim s \<noteq> [] \<Longrightarrow> findAnswers L st (JString s) k = match_question L st s k"
  by (auto simp: trim_def)

lemma match_question_strong:
  assumes "best_scores L st s k = tp # rest" "index tp < length (faqs st)"
    and "score tp \<ge> TFIDF_STRONG" "score_gap (tp # rest) \<ge> TFIDF_SCORE_GAP"
  shows "match_question L st s k = Inr \<lparr>answer = Some (a (faqs st ! index tp)), suggestions = []\<rparr>"
  using assms by (simp add: match_question_def faq_at_def)

lemma match_question_weak:
  assumes "best_scores L st s k = tp # rest" "\<forall>x\<in>set (tp # rest). index x < length (faqs st)"
    and "\<not> (score tp \<ge> TFIDF_STRONG \<and> score_gap (tp # rest) \<ge> TFIDF_SCORE_GAP)"
    and "score tp \<ge> TFIDF_WEAK"
  shows "match_question L st s k =
    Inr \<lparr>answer = Some (a (faqs st ! index tp)),
         suggestions = map (\<lambda>x. q (faqs st ! index x)) (tp # rest)\<rparr>"
proof -
  have "faqs_at (faqs st) (map index (tp # rest)) = Inr (map (\<lambda>i. faqs st ! i) (map index (tp # rest)))"
    using assms(2) by (intro faqs_at_in_range) auto
  then show ?thesis
    using assms by (auto simp add: match_question_def faq_at_def comp_def)
qed

lemma match_question_fallback:
  assumes "case best_scores L st s k of [] \<Rightarrow> True | tp # _ \<Rightarrow> score tp < TFIDF_WEAK"
  shows "match_question L st s k = fuzzy_fallback L st s k"
  using assms
  by (cases "best_scores L st s k")
     (auto simp: match_question_def TFIDF_WEAK_def TFIDF_STRONG_def)

lemma fuzzy_fallback_Some:
  assumes "fuse st = Some coll"
  shows "fuzzy_fallback L st s k =
     (let rs = fuse_search L coll s k; sug = map (\<lambda>r. q (item r)) rs in
      case rs of
        [] \<Rightarrow> Inr \<lparr>answer = None, suggestions = sug\<rparr>
      | r0 # others \<Rightarrow>
          if fscore r0 \<le> FUSE_ACCEPT_THRESHOLD then
            (case others of
               [] \<Rightarrow> Inr \<lparr>answer = Some (a (item r0)), suggestions = sug\<rparr>
             | r1 # _ \<Rightarrow>
                 if \<bar>fscore r0 - fscore r1\<bar> < 0.05
                 then Inr \<lparr>answer = None, suggestions = sug\<rparr>
                 else Inr \<lparr>answer = Some (a (item r0)), suggestions = sug\<rparr>)
          else Inr \<lparr>answer = None, suggestions = sug\<rparr>)"
  using assms by (simp add: fuzzy_fallback_def Let_def split: list.splits)

lemma fuzzy_fallback_none_accepted:
  assumes "fuse st = Some coll"
    and "\<forall>r\<in>set (fuse_search L coll s k). fscore r > FUSE_ACCEPT_THRESHOLD"
  shows "fuzzy_fallback L st s k =
     Inr \<lparr>answer = None, suggestions = map (\<lambda>r. q (item r)) (fuse_search L coll s k)\<rparr>"
  using assms
  by (cases "fuse_search L coll s k") (simp_all add: fuzzy_fallback_def Let_def)

lemma findAnswers_alt_nonblank:
  "trim s \<noteq> [] \<Longrightarrow>
   findAnswers_alt L st (JString s) k =
     (let best = best_scores_alt L st s k in
      if 0 < length best \<and> score (best ! 0) \<ge> TFIDF_THRESHOLD then
        (case faq_at (faqs st) (index (best ! 0)) of
           Inl e \<Rightarrow> Inl e
         | Inr f \<Rightarrow> Inr \<lparr>answer = Some (a f), suggestions = questions_of (faqs st) best\<rparr>)
      else fuzzy_fallback_alt L st s k)"
  by (auto simp: trim_def)

lemma findAnswers_alt_fallback:
  assumes "trim s \<noteq> []"
    and "case best_scores_alt L st s k of [] \<Rightarrow> True | tp # _ \<Rightarrow> score tp < TFIDF_THRESHOLD"
  shows "findAnswers_alt L st (JString s) k = fuzzy_fallback_alt L st s k"
  using assms(2) unfolding findAnswers_alt_nonblank [OF assms(1)]
  by (cases "best_scores_alt L st s k") (simp_all add: Let_def)

lemma fuzzy_fallback_alt_none_accepted:
  assumes "fuse st = Some coll"
    and "\<forall>r\<in>set (fuse_search L coll s k). fscore r > FUSE_ACCEPT_THRESHOLD_alt"
  shows "fuzzy_fallback_alt L st s k =
     Inr \<lparr>answer = None,
          suggestions =
            (if take k (map (\<lambda>r. q (item r)) (fuse_search L coll s k)) \<noteq> []
             then take k (map (\<lambda>r. q (item r)) (fuse_search L coll s k))
             else map q (take k (faqs st)))\<rparr>"
  using assms
  by (cases "fuse_search L coll s k") (simp_all add: fuzzy_fallback_alt_def Let_def first_questions_def)

section \<open>The failure counter\<close>

text \<open>\<open>findAnswers\<close> never reads the counter, and \<^verbatim>\<open>/ask\<close> changes nothing else.\<close>

lemma best_scores_failCount:
  "best_scores L (st\<lparr>failCount := n\<rparr>) s k = best_scores L st s k"
  by (simp add: best_scores_def)

lemma fuzzy_fallback_failCount:
  "fuzzy_fallback L (st\<lparr>failCount := n\<rparr>) s k = fuzzy_fallback L st s k"
  by (simp add: fuzzy_fallback_def)

lemma match_question_failCount:
  "match_question L (st\<lparr>failCount := n\<rparr>) s k = match_question L st s k"
  unfolding match_question_def Let_def best_scores_failCount fuzzy_fallback_failCount
  by (simp cong: sum.case_cong)

lemma findAnswers_failCount:
  "findAnswers L (st\<lparr>failCount := n\<rparr>) v k = findAnswers L st v k"
  by (cases v) (simp_all add: match_question_failCount)

lemma ask_cases:
  "ask L st v =
     (case findAnswers L st v 3 of
        Inl e \<Rightarrow> (st, Json 500 \<lparr>answer = None, suggestions = []\<rparr>)
      | Inr r \<Rightarrow>
          if truthy_answer (answer r) then (st\<lparr>failCount := 0\<rparr>, Json 200 r)
          else if failCount st + 1 \<ge> FAIL_LIMIT then (st\<lparr>failCount := 0\<rparr>, Json 200 escalation)
          else (st\<lparr>failCount := failCount st + 1\<rparr>, Json 200 r))"
  by (simp add: ask_def Let_def split: sum.splits)

lemma failCount_ask:
  "failCount (fst (ask L st v)) = 0 \<or> failCount (fst (ask L st v)) = failCount st \<or>
   (failCount (fst (ask L st v)) = failCount st + 1 \<and> failCount st + 1 < FAIL_LIMIT)"
  by (simp add: ask_cases split: sum.splits)

lemma failCount_ask_returns:
  assumes "findAnswers L st v 3 = Inr r"
  shows "failCount (fst (ask L st v)) = 0 \<or> failCount (fst (ask L st v)) = failCount st + 1"
  using assms by (simp add: ask_cases)

lemma failCount_reload: "failCount (fst (reload L st src)) = failCount st"
  by (cases src) (simp_all add: reload_def loadFaqs_def Let_def)

lemma failCount_handle:
  assumes "0 \<le> failCount st" "failCount st < FAIL_LIMIT"
  shows "0 \<le> failCount (fst (handle L st r)) \<and> failCount (fst (handle L st r)) < FAIL_LIMIT"
proof (cases r)
  case (Ask v)
  then show ?thesis
    using assms failCount_ask [of L st v] by (auto simp: FAIL_LIMIT_def)
next
  case (Reload src)
  then show ?thesis using assms by (simp add: failCount_reload)
qed

lemma failCount_serve:
  assumes "0 \<le> failCount st" "failCount st < FAIL_LIMIT"
  shows "0 \<le> failCount (fst (serve L st rs)) \<and> failCount (fst (serve L st rs)) < FAIL_LIMIT"
  using assms
proof (induction rs arbitrary: st)
  case Nil
  then show ?case by simp
next
  case (Cons r rs)
  obtain st1 out where h: "handle L st r = (st1, out)" by (cases "handle L st r")
  have "0 \<le> failCount st1 \<and> failCount st1 < FAIL_LIMIT"
    using failCount_handle [OF Cons.prems, of L r] h by simp
  then have "0 \<le> failCount (fst (serve L st1 rs)) \<and> failCount (fst (serve L st1 rs)) < FAIL_LIMIT"
    using Cons.IH by blast
  then show ?case using h by (cases "serve L st1 rs") simp
qed

lemma serve_three_failures:
  assumes r1: "findAnswers L st v1 3 = Inr r1" and r2: "findAnswers L st v2 3 = Inr r2"
    and r3: "findAnswers L st v3 3 = Inr r3"
    and zero: "failCount st = 0"
    and no: "\<not> truthy_answer (answer r1)" "\<not> truthy_answer (answer r2)" "\<not> truthy_answer (answer r3)"
  shows "serve L st [Ask v1, Ask v2, Ask v3] =
           (st, [Json 200 r1, Json 200 r2, Json 200 escalation])"
proof -
  have a1: "ask L st v1 = (st\<lparr>failCount := 1\<rparr>, Json 200 r1)"
    using r1 zero no by (simp add: ask_cases FAIL_LIMIT_def)
  have a2: "ask L (st\<lparr>failCount := 1\<rparr>) v2 = (st\<lparr>failCount := 2\<rparr>, Json 200 r2)"
    using r2 no by (simp add: ask_cases FAIL_LIMIT_def findAnswers_failCount)
  have a3: "ask L (st\<lparr>failCount := 2\<rparr>) v3 = (st\<lparr>failCount := 0\<rparr>, Json 200 escalation)"
    using r3 no by (simp add: ask_cases FAIL_LIMIT_def findAnswers_failCount)
  have "st\<lparr>failCount := 0\<rparr> = st"
    using zero by simp
  then show ?thesis
    by (simp add: a1 a2 a3)
qed

section \<open>Loaded states\<close>

text \<open>After a successful \<open>loadFaqs\<close> the tf-idf documents correspond to the FAQ list one
  to one and the Fuse index is built over that list; no request breaks this, and in such a
  state \<open>findAnswers\<close> returns for every string.\<close>

lemma failCount_loaded: "failCount (loaded L raw) = 0"
  by (simp add: loaded_def loadFaqs_def initial_def Let_def)

lemma loaded_reset: "(loaded L raw)\<lparr>failCount := 0\<rparr> = loaded L raw"
  by (simp add: loaded_def loadFaqs_def initial_def Let_def)

lemma loadFaqs_consistent:
  assumes "loadFaqs L src st = Inr st'"
  shows "length (documents st') = length (faqs st') \<and> fuse st' = Some (faqs st') \<and>
         failCount st' = failCount st"
  using assms by (cases src) (auto simp: loadFaqs_def Let_def)

lemma handle_consistent:
  assumes "length (documents st) = length (faqs st) \<and> fuse st = Some (faqs st)"
  shows "length (documents (fst (handle L st r))) = length (faqs (fst (handle L st r))) \<and>
         fuse (fst (handle L st r)) = Some (faqs (fst (handle L st r)))"
proof (cases r)
  case (Ask v)
  then show ?thesis using assms by (auto simp: ask_cases split: sum.splits)
next
  case (Reload src)
  then show ?thesis
    using assms loadFaqs_consistent [of L src st]
    by (cases "loadFaqs L src st") (auto simp: reload_def)
qed

lemma serve_consistent:
  assumes "length (documents st) = length (faqs st) \<and> fuse st = Some (faqs st)"
  shows "length (documents (fst (serve L st rs))) = length (faqs (fst (serve L st rs))) \<and>
         fuse (fst (serve L st rs)) = Some (faqs (fst (serve L st rs)))"
  using assms
proof (induction rs arbitrary: st)
  case Nil
  then show ?case by simp
next
  case (Cons r rs)
  obtain st1 out where h: "handle L st r = (st1, out)" by (cases "handle L st r")
  have "length (documents st1) = length (faqs st1) \<and> fuse st1 = Some (faqs st1)"
    using handle_consistent [OF Cons.prems, of L r] h by simp
  from Cons.IH [OF this] show ?case
    using h by (cases "serve L st1 rs") simp
qed

lemma consistent_findAnswers_returns:
  assumes "length (documents st) = length (faqs st)" "fuse st = Some coll"
  shows "\<exists>r. findAnswers L st (JString s) k = Inr r"
proof (cases "s = [] \<or> trim s = []")
  case True
  then show ?thesis by auto
next
  case False
  let ?best = "best_scores L st s k"
  have in_range: "\<forall>x\<in>set ?best. index x < length (faqs st)"
    using best_scores_subset [of L st s k] index_tfidfs [of _ L "documents st" "tfidf_query L s"]
    unfolding assms(1) [symmetric] by blast
  then have fa: "faqs_at (faqs st) (map index ?best) = Inr (map (\<lambda>i. faqs st ! i) (map index ?best))"
    by (intro faqs_at_in_range) auto
  have hd_ok: "0 < length ?best \<Longrightarrow> index (?best ! 0) < length (faqs st)"
    using in_range by simp
  have "\<exists>r. fuzzy_fallback L st s k = Inr r"
    using assms(2) by (simp add: fuzzy_fallback_def Let_def)
  then have "\<exists>r. match_question L st s k = Inr r"
    using fa hd_ok by (auto simp: match_question_def Let_def faq_at_def)
  then show ?thesis using False by simp
qed

section \<open>Runs of the model\<close>

text \<open>The corpus files loaded with the library instance, and the intermediate
  values of the requests used below.\<close>

lemma loaded_faq_txt:
  "loaded sample_lib faq_txt =
     \<lparr>faqs = [\<lparr>q = js ''How do I reset my password?'', a = js ''Use the reset link.''\<rparr>,
              \<lparr>q = js ''How do I contact support?'', a = js ''Call 16221.''\<rparr>],
      documents = [js ''reset password'', js ''contact support''],
      fuse = Some [\<lparr>q = js ''How do I reset my password?'', a = js ''Use the reset link.''\<rparr>,
                   \<lparr>q = js ''How do I contact support?'', a = js ''Call 16221.''\<rparr>],
      failCount = 0\<rparr>"
  by (simp add: strdefs libdefs loaddefs faq_txt_def Let_def)

lemma loaded_faq_txt_twice:
  "loaded sample_lib faq_txt_twice =
     \<lparr>faqs = [\<lparr>q = js ''Opening hours?'', a = js ''9 to 5.''\<rparr>,
              \<lparr>q = js ''Opening hours?'', a = js ''Closed on Friday.''\<rparr>],
      documents = [js ''opening hour'', js ''opening hour''],
      fuse = Some [\<lparr>q = js ''Opening hours?'', a = js ''9 to 5.''\<rparr>,
                   \<lparr>q = js ''Opening hours?'', a = js ''Closed on Friday.''\<rparr>],
      failCount = 0\<rparr>"
  by (simp add: strdefs libdefs loaddefs faq_txt_twice_def Let_def)

lemma loaded_faq_txt_blank:
  "loaded sample_lib faq_txt_blank =
     \<lparr>faqs = [\<lparr>q = js ''Opening hours?'', a = []\<rparr>],
      documents = [js ''opening hour''],
      fuse = Some [\<lparr>q = js ''Opening hours?'', a = []\<rparr>],
      failCount = 0\<rparr>"
  by (simp add: strdefs libdefs loaddefs faq_txt_blank_def Let_def)

lemma best_reset_password:
  "best_scores sample_lib (loaded sample_lib faq_txt) (js ''reset password'') 3 =
     [\<lparr>index = 0, score = 4\<rparr>, \<lparr>index = 1, score = 0\<rparr>]"
  unfolding loaded_faq_txt by (simp add: strdefs libdefs expdefs matchdefs Let_def)


lemma best_rest_my_pasword:
  "best_scores sample_lib (loaded sample_lib faq_txt) (js ''rest my pasword'') 3 =
     [\<lparr>index = 0, score = 0\<rparr>, \<lparr>index = 1, score = 0\<rparr>]"
  unfolding loaded_faq_txt by (simp add: strdefs libdefs expdefs matchdefs Let_def)

lemma best_opning_hurs:
  "best_scores sample_lib (loaded sample_lib faq_txt_twice) (js ''opning hurs'') 3 =
     [\<lparr>index = 0, score = 0\<rparr>, \<lparr>index = 1, score = 0\<rparr>]"
  unfolding loaded_faq_txt_twice by (simp add: strdefs libdefs expdefs matchdefs Let_def)

lemma best_qqqq:
  "best_scores sample_lib (loaded sample_lib faq_txt) (js ''qqqq'') 3 =
     [\<lparr>index = 0, score = 0\<rparr>, \<lparr>index = 1, score = 0\<rparr>]"
  unfolding loaded_faq_txt by (simp add: strdefs libdefs expdefs matchdefs Let_def)

lemma best_alt_qqqq:
  "best_scores_alt sample_lib (loaded sample_lib faq_txt) (js ''qqqq'') 3 =
     [\<lparr>index = 0, score = 0\<rparr>, \<lparr>index = 1, score = 0\<rparr>]"
  unfolding loaded_faq_txt by (simp add: strdefs libdefs expdefs matchdefs altdefs Let_def)

lemma best_blank_opening_hours:
  "best_scores sample_lib (loaded sample_lib faq_txt_blank) (js ''opening hours'') 3 =
     [\<lparr>index = 0, score = 4\<rparr>]"
  unfolding loaded_faq_txt_blank by (simp add: strdefs libdefs expdefs matchdefs Let_def)

lemma search_rest_my_pasword:
  "fuse_search sample_lib (faqs (loaded sample_lib faq_txt)) (js ''rest my pasword'') 3 =
     [\<lparr>item = \<lparr>q = js ''How do I reset my password?'', a = js ''Use the reset link.''\<rparr>, fscore = 0\<rparr>,
      \<lparr>item = \<lparr>q = js ''How do I contact support?'', a = js ''Call 16221.''\<rparr>, fscore = 1 / 4\<rparr>]"
  unfolding loaded_faq_txt by (simp add: strdefs libdefs Let_def)

lemma search_opning_hurs:
  "fuse_search sample_lib (faqs (loaded sample_lib faq_txt_twice)) (js ''opning hurs'') 3 =
     [\<lparr>item = \<lparr>q = js ''Opening hours?'', a = js ''9 to 5.''\<rparr>, fscore = 0\<rparr>,
      \<lparr>item = \<lparr>q = js ''Opening hours?'', a = js ''Closed on Friday.''\<rparr>, fscore = 0\<rparr>]"
  unfolding loaded_faq_txt_twice by (simp add: strdefs libdefs Let_def)

lemma search_qqqq:
  "fuse_search sample_lib (faqs (loaded sample_lib faq_txt)) (js ''qqqq'') 3 = []"
  unfolding loaded_faq_txt by (simp add: strdefs libdefs Let_def)

lemma find_reset_password:
  "findAnswers sample_lib (loaded sample_lib faq_txt) (JString (js ''reset password'')) 3 =
     Inr \<lparr>answer = Some (js ''Use the reset link.''), suggestions = []\<rparr>"
proof -
  have nb: "trim (js ''reset password'') \<noteq> []"
    by (simp add: strdefs)
  have "match_question sample_lib (loaded sample_lib faq_txt) (js ''reset password'') 3 =
     Inr \<lparr>answer = Some (js ''Use the reset link.''), suggestions = []\<rparr>"
    using match_question_strong [OF best_reset_password]
    by (simp add: TFIDF_STRONG_def TFIDF_SCORE_GAP_def score_gap_def loaded_faq_txt)
  then show ?thesis
    unfolding findAnswers_nonblank [OF nb] .
qed

lemma find_blank_opening_hours:
  "findAnswers sample_lib (loaded sample_lib faq_txt_blank) (JString (js ''opening hours'')) 3 =
     Inr \<lparr>answer = Some [], suggestions = []\<rparr>"
proof -
  have nb: "trim (js ''opening hours'') \<noteq> []"
    by (simp add: strdefs)
  have "match_question sample_lib (loaded sample_lib faq_txt_blank) (js ''opening hours'') 3 =
     Inr \<lparr>answer = Some [], suggestions = []\<rparr>"
    using match_question_strong [OF best_blank_opening_hours]
    by (simp add: TFIDF_STRONG_def TFIDF_SCORE_GAP_def score_gap_def loaded_faq_txt_blank)
  then show ?thesis
    unfolding findAnswers_nonblank [OF nb] .
qed



lemma loaded_faq_txt_four:
  "loaded sample_lib faq_txt_four =
     \<lparr>faqs = [\<lparr>q = js ''How do I reset my password?'', a = js ''Use the reset link.''\<rparr>,
              \<lparr>q = js ''How do I change my password?'', a = js ''Open the settings page.''\<rparr>,
              \<lparr>q = js ''How do I contact support?'', a = js ''Call 16221.''\<rparr>,
              \<lparr>q = js ''Where is the password reset email?'', a = js ''Look in the spam folder.''\<rparr>],
      documents = [js ''reset password'', js ''change password'', js ''contact support'',
                   js ''where password reset email''],
      fuse = Some [\<lparr>q = js ''How do I reset my password?'', a = js ''Use the reset link.''\<rparr>,
              \<lparr>q = js ''How do I change my password?'', a = js ''Open the settings page.''\<rparr>,
              \<lparr>q = js ''How do I contact support?'', a = js ''Call 16221.''\<rparr>,
              \<lparr>q = js ''Where is the password reset email?'', a = js ''Look in the spam folder.''\<rparr>],
      failCount = 0\<rparr>"
  by (simp add: strdefs libdefs loaddefs faq_txt_four_def Let_def)

lemma scores_four_reset_password:
  "tfidfs sample_lib (documents (loaded sample_lib faq_txt_four))
     (tfidf_query sample_lib (js ''reset password'')) =
     [\<lparr>index = 0, score = 4\<rparr>, \<lparr>index = 1, score = 2\<rparr>, \<lparr>index = 2, score = 0\<rparr>,
      \<lparr>index = 3, score = 4\<rparr>]"
  unfolding loaded_faq_txt_four
  by (simp add: strdefs libdefs expdefs matchdefs Let_def upt_rec [of 0] upt_rec [of "Suc n" for n])

lemma best_four_reset_password:
  "best_scores sample_lib (loaded sample_lib faq_txt_four) (js ''reset password'') 3 =
     [\<lparr>index = 0, score = 4\<rparr>, \<lparr>index = 3, score = 4\<rparr>, \<lparr>index = 1, score = 2\<rparr>]"
  unfolding best_scores_def scores_four_reset_password by (simp add: sort_desc_def)

lemma find_four_reset_password:
  "findAnswers sample_lib (loaded sample_lib faq_txt_four) (JString (js ''reset password'')) 3 =
     Inr \<lparr>answer = Some (js ''Use the reset link.''),
          suggestions = [js ''How do I reset my password?'',
                         js ''Where is the password reset email?'',
                         js ''How do I change my password?'']\<rparr>"
proof -
  have nb: "trim (js ''reset password'') \<noteq> []"
    by (simp add: strdefs)
  have "match_question sample_lib (loaded sample_lib faq_txt_four) (js ''reset password'') 3 =
     Inr \<lparr>answer = Some (js ''Use the reset link.''),
          suggestions = [js ''How do I reset my password?'',
                         js ''Where is the password reset email?'',
                         js ''How do I change my password?'']\<rparr>"
    using match_question_weak [OF best_four_reset_password]
    by (simp add: TFIDF_STRONG_def TFIDF_SCORE_GAP_def TFIDF_WEAK_def score_gap_def
        loaded_faq_txt_four)
  then show ?thesis
    unfolding findAnswers_nonblank [OF nb] .
qed


lemma loaded_scaled_faq_txt_four:
  "loaded sample_lib_scaled faq_txt_four = loaded sample_lib faq_txt_four"
  unfolding loaded_faq_txt_four
  by (simp add: strdefs libdefs loaddefs sample_lib_scaled_def faq_txt_four_def Let_def)

lemma scores_four_reset_email:
  "tfidfs sample_lib_scaled (documents (loaded sample_lib faq_txt_four))
     (tfidf_query sample_lib_scaled (js ''reset email'')) =
     [\<lparr>index = 0, score = 1 / 8\<rparr>, \<lparr>index = 1, score = 0\<rparr>, \<lparr>index = 2, score = 0\<rparr>,
      \<lparr>index = 3, score = 1 / 4\<rparr>]"
  unfolding loaded_faq_txt_four
  by (simp add: strdefs libdefs expdefs matchdefs sample_lib_scaled_def scaled_frequency_def
      Let_def upt_rec [of 0] upt_rec [of "Suc n" for n])

lemma best_four_reset_email:
  "best_scores sample_lib_scaled (loaded sample_lib_scaled faq_txt_four) (js ''reset email'') 3 =
     [\<lparr>index = 3, score = 1 / 4\<rparr>, \<lparr>index = 0, score = 1 / 8\<rparr>, \<lparr>index = 1, score = 0\<rparr>]"
  unfolding best_scores_def loaded_scaled_faq_txt_four scores_four_reset_email
  by (simp add: sort_desc_def)



lemma words_my_book: "query_words sample_lib (js ''my book'') = [js ''my'', js ''book'']"
  by (simp add: strdefs libdefs expdefs)

lemma synonyms_my_book:
  "returned_synonyms sample_lib (js ''my book'') =
     [js ''record'', js ''record_book'', js ''book'', js ''Bible'', js ''Christian_Bible'',
      js ''Book'', js ''Good_Book'', js ''Word_of_God'']"
  unfolding returned_synonyms_def words_my_book
  by (simp add: js_def sample_lib_def sample_wordnet_def)

lemma expanded_my_book:
  "expanded sample_lib (js ''my book'') =
     [js ''my'', js ''book'', js ''record'', js ''record_book'', js ''bible'',
      js ''christian_bible'', js ''good_book'', js ''word_of_god'']"
  unfolding expanded_def Let_def words_my_book
  by (simp add: js_def sample_lib_def sample_wordnet_def new_Set_def Set_add_def lookup_word_def
      add_results_def add_synonym_def ascii_lower_def SP_def)

lemma processed_reset_question:
  "processed sample_lib (js ''How do I reset my Password?'') = [js ''reset'', js ''password'']"
  by (simp add: strdefs libdefs Let_def)

lemma preprocess_reset_question:
  "preprocess sample_lib (js ''How do I reset my Password?'') = js ''reset password''"
  unfolding preprocess_def processed_reset_question by (simp add: js_def SP_def)

section \<open>The claims\<close>

subsection \<open>C1\<close>

text \<open>
  Claim C1. Let \<open>tp # rest\<close> be the array \<open>best\<close> of a non-blank query, and let \<open>gap\<close>
  be the distance from the top score to the second (the top score itself when there is no
  second, as line 280 has it). \<open>best\<close> is the top \<open>k = 3\<close> of the corpus: it has three
  entries, or as many as the corpus has when those are fewer; each entry carries the
  position of a document and the measure of that document; the entries stand in
  descending order of score, equal scores in document order; and every document that is
  left out ranks after every entry. If the top score is at least \<open>TFIDF_STRONG\<close> (0.3) and
  the gap at least \<open>TFIDF_SCORE_GAP\<close> (0.08), \<open>findAnswers\<close> returns the top entry's answer
  and no suggestions; otherwise, if the top score is at least \<open>TFIDF_WEAK\<close> (0.2), it
  returns the top entry's answer and the questions of the entries of \<open>best\<close>, in their
  order. The hypothesis on the state holds after every \<open>loadFaqs\<close> and is kept by every
  request (lemmas \<open>loadFaqs_consistent\<close> and \<open>serve_consistent\<close>); without it the index of
  a document need not be the index of an entry.
\<close>

theorem tfidf_confident_or_weak:
  assumes inv: "length (documents st) = length (faqs st)"
    and nonblank: "trim s \<noteq> []"
    and best: "best_scores L st s 3 = tp # rest"
    and gap: "gap = (case rest of [] \<Rightarrow> score tp | second # _ \<Rightarrow> score tp - score second)"
  shows "length (tp # rest) = min 3 (length (faqs st)) \<and>
         (\<forall>x\<in>set (tp # rest).
            index x < length (faqs st) \<and>
            score x = tfidf_measure L (documents st) (tfidf_query L s) (index x)) \<and>
         sorted_wrt (\<lambda>x y. score y < score x \<or> (score x = score y \<and> index x < index y))
           (tp # rest) \<and>
         (\<forall>i<length (faqs st). i \<notin> index ` set (tp # rest) \<longrightarrow>
            (\<forall>x\<in>set (tp # rest).
               tfidf_measure L (documents st) (tfidf_query L s) i < score x \<or>
               (score x = tfidf_measure L (documents st) (tfidf_query L s) i \<and> index x < i))) \<and>
         (score tp \<ge> TFIDF_STRONG \<and> gap \<ge> TFIDF_SCORE_GAP \<longrightarrow>
            findAnswers L st (JString s) 3 =
              Inr \<lparr>answer = Some (a (faqs st ! index tp)), suggestions = []\<rparr>) \<and>
         (\<not> (score tp \<ge> TFIDF_STRONG \<and> gap \<ge> TFIDF_SCORE_GAP) \<and> score tp \<ge> TFIDF_WEAK \<longrightarrow>
            findAnswers L st (JString s) 3 =
              Inr \<lparr>answer = Some (a (faqs st ! index tp)),
                   suggestions = map (\<lambda>x. q (faqs st ! index x)) (tp # rest)\<rparr>)"
proof (intro conjI)
  have fa: "findAnswers L st (JString s) 3 = match_question L st s 3"
    by (rule findAnswers_nonblank [OF nonblank])
  have sg: "score_gap (tp # rest) = gap"
    unfolding gap by (cases rest) (simp_all add: score_gap_def)
  show "length (tp # rest) = min 3 (length (faqs st))"
    using best_scores_length [of L st s 3] unfolding best inv .
  show ms: "\<forall>x\<in>set (tp # rest).
            index x < length (faqs st) \<and>
            score x = tfidf_measure L (documents st) (tfidf_query L s) (index x)"
    using best_scores_measure [of _ L st s 3] unfolding best inv by blast
  show "sorted_wrt (\<lambda>x y. score y < score x \<or> (score x = score y \<and> index x < index y))
           (tp # rest)"
    using best_scores_ranked [of L st s 3] unfolding best .
  show "\<forall>i<length (faqs st). i \<notin> index ` set (tp # rest) \<longrightarrow>
            (\<forall>x\<in>set (tp # rest).
               tfidf_measure L (documents st) (tfidf_query L s) i < score x \<or>
               (score x = tfidf_measure L (documents st) (tfidf_query L s) i \<and> index x < i))"
    using best_scores_excluded [of _ st L s 3] unfolding best inv by blast
  have in_range: "\<forall>x\<in>set (tp # rest). index x < length (faqs st)"
    using ms by blast
  show "score tp \<ge> TFIDF_STRONG \<and> gap \<ge> TFIDF_SCORE_GAP \<longrightarrow>
      findAnswers L st (JString s) 3 =
        Inr \<lparr>answer = Some (a (faqs st ! index tp)), suggestions = []\<rparr>"
    using match_question_strong [OF best] in_range sg fa by simp
  show "\<not> (score tp \<ge> TFIDF_STRONG \<and> gap \<ge> TFIDF_SCORE_GAP) \<and> score tp \<ge> TFIDF_WEAK \<longrightarrow>
      findAnswers L st (JString s) 3 =
        Inr \<lparr>answer = Some (a (faqs st ! index tp)),
             suggestions = map (\<lambda>x. q (faqs st ! index x)) (tp # rest)\<rparr>"
    using match_question_weak [OF best in_range] sg fa by simp
qed

text \<open>Three runs. On the corpus of the specification the query \<^verbatim>\<open>reset password\<close>
  scores 4 and 0: a confident answer. On a corpus of four entries it scores 4, 2, 0 and 4:
  the gap is 0, the answer is a weak one, and the suggestions are the questions of the
  entries 0, 3 and 1; the entry that scores 0 is left out. With the scaled measure the
  query \<^verbatim>\<open>reset email\<close> scores 1/8, 0, 0 and 1/4 on that corpus: the top score lies
  between the thresholds, the answer is that of entry 3, and the suggestions are the
  questions of the entries 3, 0 and 1.\<close>

theorem tfidf_confident_or_weak_witness:
  "length (documents (loaded sample_lib faq_txt)) = length (faqs (loaded sample_lib faq_txt)) \<and>
   trim (js ''reset password'') \<noteq> [] \<and>
   best_scores sample_lib (loaded sample_lib faq_txt) (js ''reset password'') 3 =
     [\<lparr>index = 0, score = 4\<rparr>, \<lparr>index = 1, score = 0\<rparr>] \<and>
   findAnswers sample_lib (loaded sample_lib faq_txt) (JString (js ''reset password'')) 3 =
     Inr \<lparr>answer = Some (js ''Use the reset link.''), suggestions = []\<rparr> \<and>
   length (documents (loaded sample_lib faq_txt_four)) = 4 \<and>
   length (faqs (loaded sample_lib faq_txt_four)) = 4 \<and>
   tfidfs sample_lib (documents (loaded sample_lib faq_txt_four))
     (tfidf_query sample_lib (js ''reset password'')) =
     [\<lparr>index = 0, score = 4\<rparr>, \<lparr>index = 1, score = 2\<rparr>, \<lparr>index = 2, score = 0\<rparr>,
      \<lparr>index = 3, score = 4\<rparr>] \<and>
   best_scores sample_lib (loaded sample_lib faq_txt_four) (js ''reset password'') 3 =
     [\<lparr>index = 0, score = 4\<rparr>, \<lparr>index = 3, score = 4\<rparr>, \<lparr>index = 1, score = 2\<rparr>] \<and>
   findAnswers sample_lib (loaded sample_lib faq_txt_four) (JString (js ''reset password'')) 3 =
     Inr \<lparr>answer = Some (js ''Use the reset link.''),
          suggestions = [js ''How do I reset my password?'',
                         js ''Where is the password reset email?'',
                         js ''How do I change my password?'']\<rparr> \<and>
   trim (js ''reset email'') \<noteq> [] \<and>
   loaded sample_lib_scaled faq_txt_four = loaded sample_lib faq_txt_four \<and>
   tfidfs sample_lib_scaled (documents (loaded sample_lib faq_txt_four))
     (tfidf_query sample_lib_scaled (js ''reset email'')) =
     [\<lparr>index = 0, score = 1 / 8\<rparr>, \<lparr>index = 1, score = 0\<rparr>, \<lparr>index = 2, score = 0\<rparr>,
      \<lparr>index = 3, score = 1 / 4\<rparr>] \<and>
   best_scores sample_lib_scaled (loaded sample_lib_scaled faq_txt_four) (js ''reset email'') 3 =
     [\<lparr>index = 3, score = 1 / 4\<rparr>, \<lparr>index = 0, score = 1 / 8\<rparr>, \<lparr>index = 1, score = 0\<rparr>] \<and>
   findAnswers sample_lib_scaled (loaded sample_lib_scaled faq_txt_four)
     (JString (js ''reset email'')) 3 =
     Inr \<lparr>answer = Some (js ''Look in the spam folder.''),
          suggestions = [js ''Where is the password reset email?'',
                         js ''How do I reset my password?'',
                         js ''How do I change my password?'']\<rparr>"
proof -
  have i1: "length (documents (loaded sample_lib faq_txt)) = length (faqs (loaded sample_lib faq_txt))"
    by (simp add: loaded_faq_txt)
  have n1: "trim (js ''reset password'') \<noteq> []"
    by (simp add: strdefs)
  have d4: "length (documents (loaded sample_lib faq_txt_four)) = 4"
    by (simp add: loaded_faq_txt_four)
  have f4: "length (faqs (loaded sample_lib faq_txt_four)) = 4"
    by (simp add: loaded_faq_txt_four)
  have i4: "length (documents (loaded sample_lib faq_txt_four)) =
      length (faqs (loaded sample_lib faq_txt_four))"
    using d4 f4 by simp
  have i5: "length (documents (loaded sample_lib_scaled faq_txt_four)) =
      length (faqs (loaded sample_lib_scaled faq_txt_four))"
    unfolding loaded_scaled_faq_txt_four by (rule i4)
  have n5: "trim (js ''reset email'') \<noteq> []"
    by (simp add: strdefs)
  have r1: "findAnswers sample_lib (loaded sample_lib faq_txt) (JString (js ''reset password'')) 3 =
     Inr \<lparr>answer = Some (js ''Use the reset link.''), suggestions = []\<rparr>"
    using tfidf_confident_or_weak [OF i1 n1 best_reset_password refl]
    by (simp add: TFIDF_STRONG_def TFIDF_SCORE_GAP_def loaded_faq_txt)
  have r4: "findAnswers sample_lib (loaded sample_lib faq_txt_four) (JString (js ''reset password'')) 3 =
     Inr \<lparr>answer = Some (js ''Use the reset link.''),
          suggestions = [js ''How do I reset my password?'',
                         js ''Where is the password reset email?'',
                         js ''How do I change my password?'']\<rparr>"
    using tfidf_confident_or_weak [OF i4 n1 best_four_reset_password refl]
    by (simp add: TFIDF_STRONG_def TFIDF_SCORE_GAP_def TFIDF_WEAK_def loaded_faq_txt_four)
  have r5: "findAnswers sample_lib_scaled (loaded sample_lib_scaled faq_txt_four)
     (JString (js ''reset email'')) 3 =
     Inr \<lparr>answer = Some (js ''Look in the spam folder.''),
          suggestions = [js ''Where is the password reset email?'',
                         js ''How do I reset my password?'',
                         js ''How do I change my password?'']\<rparr>"
    using tfidf_confident_or_weak [OF i5 n5 best_four_reset_email refl]
    by (simp add: TFIDF_STRONG_def TFIDF_SCORE_GAP_def TFIDF_WEAK_def loaded_scaled_faq_txt_four
        loaded_faq_txt_four)
  from i1 n1 best_reset_password r1 d4 f4 scores_four_reset_password best_four_reset_password r4
    n5 loaded_scaled_faq_txt_four scores_four_reset_email best_four_reset_email r5
  show ?thesis by blast
qed

subsection \<open>C2\<close>

text \<open>
  Claim C2, with the test the handler makes. \<^verbatim>\<open>if (result.answer)\<close> is a truthiness test:
  a call whose result carries a non-empty answer resets the counter to 0; a call whose
  answer is \<^verbatim>\<open>null\<close> or the empty string increments it, and when the increment reaches
  \<open>FAIL_LIMIT\<close> the response is the fixed escalation message with no suggestions and the
  counter is 0 afterwards. So, from a counter of 0, the third of three consecutive calls
  without an answer is answered by the escalation message.
\<close>

theorem ask_failure_tracking:
  assumes r1: "findAnswers L st v1 3 = Inr r1" and r2: "findAnswers L st v2 3 = Inr r2"
    and r3: "findAnswers L st v3 3 = Inr r3"
  shows "(truthy_answer (answer r1) \<longrightarrow> ask L st v1 = (st\<lparr>failCount := 0\<rparr>, Json 200 r1)) \<and>
         (\<not> truthy_answer (answer r1) \<and> failCount st + 1 < FAIL_LIMIT \<longrightarrow>
            ask L st v1 = (st\<lparr>failCount := failCount st + 1\<rparr>, Json 200 r1)) \<and>
         (\<not> truthy_answer (answer r1) \<and> failCount st + 1 \<ge> FAIL_LIMIT \<longrightarrow>
            ask L st v1 = (st\<lparr>failCount := 0\<rparr>, Json 200 escalation)) \<and>
         (failCount st = 0 \<and> \<not> truthy_answer (answer r1) \<and> \<not> truthy_answer (answer r2) \<and>
          \<not> truthy_answer (answer r3) \<longrightarrow>
            serve L st [Ask v1, Ask v2, Ask v3] =
              (st, [Json 200 r1, Json 200 r2, Json 200 escalation]))"
  using serve_three_failures [OF r1 r2 r3] r1
  by (simp add: ask_cases)

theorem ask_failure_tracking_witness:
  "findAnswers sample_lib (loaded sample_lib faq_txt) JNull 3 =
     Inr \<lparr>answer = None, suggestions = []\<rparr> \<and>
   failCount (loaded sample_lib faq_txt) = 0 \<and>
   \<not> truthy_answer (answer \<lparr>answer = None, suggestions = []\<rparr>) \<and>
   ask sample_lib (loaded sample_lib faq_txt) JNull =
     ((loaded sample_lib faq_txt)\<lparr>failCount := 1\<rparr>,
      Json 200 \<lparr>answer = None, suggestions = []\<rparr>) \<and>
   serve sample_lib (loaded sample_lib faq_txt) [Ask JNull, Ask JNull, Ask JNull] =
     (loaded sample_lib faq_txt,
      [Json 200 \<lparr>answer = None, suggestions = []\<rparr>,
       Json 200 \<lparr>answer = None, suggestions = []\<rparr>,
       Json 200 escalation]) \<and>
   findAnswers sample_lib ((loaded sample_lib faq_txt)\<lparr>failCount := 2\<rparr>)
       (JString (js ''reset password'')) 3 =
     Inr \<lparr>answer = Some (js ''Use the reset link.''), suggestions = []\<rparr> \<and>
   truthy_answer (Some (js ''Use the reset link.'')) \<and>
   ask sample_lib ((loaded sample_lib faq_txt)\<lparr>failCount := 2\<rparr>)
       (JString (js ''reset password'')) =
     (loaded sample_lib faq_txt,
      Json 200 \<lparr>answer = Some (js ''Use the reset link.''), suggestions = []\<rparr>)"
proof -
  have r: "findAnswers sample_lib (loaded sample_lib faq_txt) JNull 3 =
      Inr \<lparr>answer = None, suggestions = []\<rparr>"
    by simp
  have none: "failCount (loaded sample_lib faq_txt) = 0 \<and>
      \<not> truthy_answer (answer \<lparr>answer = None, suggestions = []\<rparr>) \<and>
      ask sample_lib (loaded sample_lib faq_txt) JNull =
        ((loaded sample_lib faq_txt)\<lparr>failCount := 1\<rparr>,
         Json 200 \<lparr>answer = None, suggestions = []\<rparr>) \<and>
      serve sample_lib (loaded sample_lib faq_txt) [Ask JNull, Ask JNull, Ask JNull] =
        (loaded sample_lib faq_txt,
         [Json 200 \<lparr>answer = None, suggestions = []\<rparr>,
          Json 200 \<lparr>answer = None, suggestions = []\<rparr>,
          Json 200 escalation])"
    using ask_failure_tracking [OF r r r]
    by (simp add: failCount_loaded truthy_answer_def FAIL_LIMIT_def del: serve.simps)
  have f: "findAnswers sample_lib ((loaded sample_lib faq_txt)\<lparr>failCount := 2\<rparr>)
       (JString (js ''reset password'')) 3 =
     Inr \<lparr>answer = Some (js ''Use the reset link.''), suggestions = []\<rparr>"
    unfolding findAnswers_failCount by (rule find_reset_password)
  have t: "truthy_answer (Some (js ''Use the reset link.''))"
    by (simp add: truthy_answer_def js_def)
  have some: "ask sample_lib ((loaded sample_lib faq_txt)\<lparr>failCount := 2\<rparr>)
       (JString (js ''reset password'')) =
     (loaded sample_lib faq_txt,
      Json 200 \<lparr>answer = Some (js ''Use the reset link.''), suggestions = []\<rparr>)"
    using ask_failure_tracking [OF f f f] t
    by (simp add: loaded_reset)
  from r none f t some show ?thesis by blast
qed

text \<open>A corpus file may end with an empty answer. A question that matches that entry gets a
  result whose answer is the empty string, not \<^verbatim>\<open>null\<close>; the counter goes from 0 to 1, and
  the third such call is answered by the escalation message.\<close>

theorem ask_failure_tracking_counterexample:
  "findAnswers sample_lib (loaded sample_lib faq_txt_blank) (JString (js ''opening hours'')) 3 =
     Inr \<lparr>answer = Some [], suggestions = []\<rparr> \<and>
   failCount (loaded sample_lib faq_txt_blank) = 0 \<and>
   failCount (fst (ask sample_lib (loaded sample_lib faq_txt_blank)
                     (JString (js ''opening hours'')))) = 1 \<and>
   snd (serve sample_lib (loaded sample_lib faq_txt_blank)
          [Ask (JString (js ''opening hours'')), Ask (JString (js ''opening hours'')),
           Ask (JString (js ''opening hours''))]) =
     [Json 200 \<lparr>answer = Some [], suggestions = []\<rparr>,
      Json 200 \<lparr>answer = Some [], suggestions = []\<rparr>,
      Json 200 escalation]"
proof -
  have n: "\<not> truthy_answer (answer \<lparr>answer = Some [], suggestions = []\<rparr>)"
    by (simp add: truthy_answer_def)
  have one: "failCount (fst (ask sample_lib (loaded sample_lib faq_txt_blank)
                     (JString (js ''opening hours'')))) = 1"
    unfolding ask_cases find_blank_opening_hours
    by (simp add: truthy_answer_def failCount_loaded FAIL_LIMIT_def)
  have three: "serve sample_lib (loaded sample_lib faq_txt_blank)
          [Ask (JString (js ''opening hours'')), Ask (JString (js ''opening hours'')),
           Ask (JString (js ''opening hours''))] =
     (loaded sample_lib faq_txt_blank,
      [Json 200 \<lparr>answer = Some [], suggestions = []\<rparr>,
       Json 200 \<lparr>answer = Some [], suggestions = []\<rparr>,
       Json 200 escalation])"
    by (rule serve_three_failures [OF find_blank_opening_hours find_blank_opening_hours
          find_blank_opening_hours failCount_loaded n n n])
  from find_blank_opening_hours one three show ?thesis
    by (simp add: failCount_loaded)
qed

subsection \<open>C3\<close>

text \<open>
  Claim C3. When the tf-idf index is not confident (no score, or a top score below
  \<open>TFIDF_WEAK\<close>) the Fuse index is searched. If its first result scores within
  \<open>FUSE_ACCEPT_THRESHOLD\<close> (0.3) and differs from the second result by at least 0.05 (or is
  the only result), \<open>findAnswers\<close> returns that entry's answer and the questions of all
  results as suggestions. If the first two results are less than 0.05 apart, the answer is
  \<^verbatim>\<open>null\<close> and the suggestions are the same questions.
\<close>

theorem fuzzy_answer_or_ambiguous:
  assumes nonblank: "trim s \<noteq> []"
    and notconf: "case best_scores L st s 3 of [] \<Rightarrow> True | tp # _ \<Rightarrow> score tp < TFIDF_WEAK"
    and idx: "fuse st = Some coll"
    and res: "fuse_search L coll s 3 = r0 # rs"
  shows "(fscore r0 \<le> FUSE_ACCEPT_THRESHOLD \<and>
          (case rs of [] \<Rightarrow> True | r1 # _ \<Rightarrow> \<bar>fscore r0 - fscore r1\<bar> \<ge> 0.05) \<longrightarrow>
            findAnswers L st (JString s) 3 =
              Inr \<lparr>answer = Some (a (item r0)),
                   suggestions = map (\<lambda>r. q (item r)) (r0 # rs)\<rparr>) \<and>
         ((case rs of [] \<Rightarrow> False | r1 # _ \<Rightarrow> \<bar>fscore r0 - fscore r1\<bar> < 0.05) \<longrightarrow>
            findAnswers L st (JString s) 3 =
              Inr \<lparr>answer = None, suggestions = map (\<lambda>r. q (item r)) (r0 # rs)\<rparr>)"
proof -
  have ff: "findAnswers L st (JString s) 3 = fuzzy_fallback L st s 3"
    using findAnswers_nonblank [OF nonblank] match_question_fallback [OF notconf] by simp
  show ?thesis
    unfolding ff fuzzy_fallback_Some [OF idx] res
    by (cases rs) (simp_all add: Let_def)
qed

theorem fuzzy_answer_or_ambiguous_witness:
  "trim (js ''rest my pasword'') \<noteq> [] \<and>
   best_scores sample_lib (loaded sample_lib faq_txt) (js ''rest my pasword'') 3 =
     [\<lparr>index = 0, score = 0\<rparr>, \<lparr>index = 1, score = 0\<rparr>] \<and>
   fuse (loaded sample_lib faq_txt) = Some (faqs (loaded sample_lib faq_txt)) \<and>
   map fscore (fuse_search sample_lib (faqs (loaded sample_lib faq_txt)) (js ''rest my pasword'') 3) =
     [0, 1 / 4] \<and>
   findAnswers sample_lib (loaded sample_lib faq_txt) (JString (js ''rest my pasword'')) 3 =
     Inr \<lparr>answer = Some (js ''Use the reset link.''),
          suggestions = [js ''How do I reset my password?'', js ''How do I contact support?'']\<rparr> \<and>
   trim (js ''opning hurs'') \<noteq> [] \<and>
   best_scores sample_lib (loaded sample_lib faq_txt_twice) (js ''opning hurs'') 3 =
     [\<lparr>index = 0, score = 0\<rparr>, \<lparr>index = 1, score = 0\<rparr>] \<and>
   fuse (loaded sample_lib faq_txt_twice) = Some (faqs (loaded sample_lib faq_txt_twice)) \<and>
   map fscore (fuse_search sample_lib (faqs (loaded sample_lib faq_txt_twice)) (js ''opning hurs'') 3) =
     [0, 0] \<and>
   findAnswers sample_lib (loaded sample_lib faq_txt_twice) (JString (js ''opning hurs'')) 3 =
     Inr \<lparr>answer = None, suggestions = [js ''Opening hours?'', js ''Opening hours?'']\<rparr>"
proof -
  have n1: "trim (js ''rest my pasword'') \<noteq> []"
    by (simp add: strdefs)
  have c1: "case best_scores sample_lib (loaded sample_lib faq_txt) (js ''rest my pasword'') 3 of
              [] \<Rightarrow> True | tp # _ \<Rightarrow> score tp < TFIDF_WEAK"
    by (simp add: best_rest_my_pasword TFIDF_WEAK_def)
  have f1: "fuse (loaded sample_lib faq_txt) = Some (faqs (loaded sample_lib faq_txt))"
    by (simp add: loaded_faq_txt)
  have r1: "findAnswers sample_lib (loaded sample_lib faq_txt) (JString (js ''rest my pasword'')) 3 =
     Inr \<lparr>answer = Some (js ''Use the reset link.''),
          suggestions = [js ''How do I reset my password?'', js ''How do I contact support?'']\<rparr>"
    using fuzzy_answer_or_ambiguous [OF n1 c1 f1 search_rest_my_pasword]
    by (simp add: FUSE_ACCEPT_THRESHOLD_def)
  have n2: "trim (js ''opning hurs'') \<noteq> []"
    by (simp add: strdefs)
  have c2: "case best_scores sample_lib (loaded sample_lib faq_txt_twice) (js ''opning hurs'') 3 of
              [] \<Rightarrow> True | tp # _ \<Rightarrow> score tp < TFIDF_WEAK"
    by (simp add: best_opning_hurs TFIDF_WEAK_def)
  have f2: "fuse (loaded sample_lib faq_txt_twice) = Some (faqs (loaded sample_lib faq_txt_twice))"
    by (simp add: loaded_faq_txt_twice)
  have r2: "findAnswers sample_lib (loaded sample_lib faq_txt_twice) (JString (js ''opning hurs'')) 3 =
     Inr \<lparr>answer = None, suggestions = [js ''Opening hours?'', js ''Opening hours?'']\<rparr>"
    using fuzzy_answer_or_ambiguous [OF n2 c2 f2 search_opning_hurs]
    by simp
  from n1 best_rest_my_pasword f1 r1 n2 best_opning_hurs f2 r2 show ?thesis
    by (simp add: search_rest_my_pasword search_opning_hurs)
qed

subsection \<open>C4\<close>

text \<open>
  Claim C4, for both variants of \<open>findAnswers\<close>. Let the query be non-blank, the tf-idf
  index not confident, and no result of the Fuse search within the acceptance threshold.
  The variant of lines 254-319 returns a \<^verbatim>\<open>null\<close> answer with the questions of the Fuse
  results, whether there are any or not. The variant of lines 492-556 returns a \<^verbatim>\<open>null\<close>
  answer with the questions of the first three Fuse results when there are results, and
  with the first three questions of the corpus otherwise.
\<close>

theorem no_fuzzy_candidate_accepted:
  assumes nonblank: "trim s \<noteq> []"
    and idx: "fuse st = Some coll"
  shows "((case best_scores L st s 3 of [] \<Rightarrow> True | tp # _ \<Rightarrow> score tp < TFIDF_WEAK) \<and>
          (\<forall>r\<in>set (fuse_search L coll s 3). fscore r > FUSE_ACCEPT_THRESHOLD) \<longrightarrow>
            findAnswers L st (JString s) 3 =
              Inr \<lparr>answer = None,
                   suggestions = map (\<lambda>r. q (item r)) (fuse_search L coll s 3)\<rparr>) \<and>
         ((case best_scores_alt L st s 3 of [] \<Rightarrow> True | tp # _ \<Rightarrow> score tp < TFIDF_THRESHOLD) \<and>
          (\<forall>r\<in>set (fuse_search L coll s 3). fscore r > FUSE_ACCEPT_THRESHOLD_alt) \<longrightarrow>
            findAnswers_alt L st (JString s) 3 =
              Inr \<lparr>answer = None,
                   suggestions =
                     (if fuse_search L coll s 3 \<noteq> []
                      then take 3 (map (\<lambda>r. q (item r)) (fuse_search L coll s 3))
                      else map q (take 3 (faqs st)))\<rparr>)"
proof -
  have v2: "findAnswers L st (JString s) 3 =
      Inr \<lparr>answer = None, suggestions = map (\<lambda>r. q (item r)) (fuse_search L coll s 3)\<rparr>"
    if "case best_scores L st s 3 of [] \<Rightarrow> True | tp # _ \<Rightarrow> score tp < TFIDF_WEAK"
      and "\<forall>r\<in>set (fuse_search L coll s 3). fscore r > FUSE_ACCEPT_THRESHOLD"
    using findAnswers_nonblank [OF nonblank] match_question_fallback [OF that(1)]
      fuzzy_fallback_none_accepted [OF idx that(2)] by simp
  have v3: "findAnswers_alt L st (JString s) 3 =
      Inr \<lparr>answer = None,
           suggestions =
             (if fuse_search L coll s 3 \<noteq> []
              then take 3 (map (\<lambda>r. q (item r)) (fuse_search L coll s 3))
              else map q (take 3 (faqs st)))\<rparr>"
    if "case best_scores_alt L st s 3 of [] \<Rightarrow> True | tp # _ \<Rightarrow> score tp < TFIDF_THRESHOLD"
      and "\<forall>r\<in>set (fuse_search L coll s 3). fscore r > FUSE_ACCEPT_THRESHOLD_alt"
    using findAnswers_alt_fallback [OF nonblank that(1)]
      fuzzy_fallback_alt_none_accepted [OF idx that(2)] by simp
  from v2 v3 show ?thesis by blast
qed

theorem no_fuzzy_candidate_accepted_witness:
  "trim (js ''qqqq'') \<noteq> [] \<and>
   fuse (loaded sample_lib faq_txt) = Some (faqs (loaded sample_lib faq_txt)) \<and>
   fuse_search sample_lib (faqs (loaded sample_lib faq_txt)) (js ''qqqq'') 3 = [] \<and>
   findAnswers sample_lib (loaded sample_lib faq_txt) (JString (js ''qqqq'')) 3 =
     Inr \<lparr>answer = None, suggestions = []\<rparr> \<and>
   findAnswers_alt sample_lib (loaded sample_lib faq_txt) (JString (js ''qqqq'')) 3 =
     Inr \<lparr>answer = None,
          suggestions = [js ''How do I reset my password?'', js ''How do I contact support?'']\<rparr>"
proof -
  have nb: "trim (js ''qqqq'') \<noteq> []"
    by (simp add: strdefs)
  have fu: "fuse (loaded sample_lib faq_txt) = Some (faqs (loaded sample_lib faq_txt))"
    by (simp add: loaded_faq_txt)
  have fq: "map q (take 3 (faqs (loaded sample_lib faq_txt))) =
      [js ''How do I reset my password?'', js ''How do I contact support?'']"
    by (simp add: loaded_faq_txt)
  from no_fuzzy_candidate_accepted [OF nb fu, of sample_lib] nb fu fq show ?thesis
    by (simp add: search_qqqq best_qqqq best_alt_qqqq TFIDF_WEAK_def TFIDF_THRESHOLD_def)
qed

text \<open>In the variant of lines 254-319 a query for which Fuse finds nothing gets no
  suggestions, although the corpus has questions to offer.\<close>

theorem no_fuzzy_candidate_accepted_counterexample:
  "trim (js ''qqqq'') \<noteq> [] \<and>
   fuse_search sample_lib (faqs (loaded sample_lib faq_txt)) (js ''qqqq'') 3 = [] \<and>
   findAnswers sample_lib (loaded sample_lib faq_txt) (JString (js ''qqqq'')) 3 =
     Inr \<lparr>answer = None, suggestions = []\<rparr> \<and>
   map q (take 3 (faqs (loaded sample_lib faq_txt))) =
     [js ''How do I reset my password?'', js ''How do I contact support?'']"
proof -
  have nb: "trim (js ''qqqq'') \<noteq> []"
    by (simp add: strdefs)
  have fu: "fuse (loaded sample_lib faq_txt) = Some (faqs (loaded sample_lib faq_txt))"
    by (simp add: loaded_faq_txt)
  have nc: "case best_scores sample_lib (loaded sample_lib faq_txt) (js ''qqqq'') 3 of
              [] \<Rightarrow> True | tp # _ \<Rightarrow> score tp < TFIDF_WEAK"
    by (simp add: best_qqqq TFIDF_WEAK_def)
  have none: "\<forall>r\<in>set (fuse_search sample_lib (faqs (loaded sample_lib faq_txt)) (js ''qqqq'') 3).
      fscore r > FUSE_ACCEPT_THRESHOLD"
    by (simp add: search_qqqq)
  have "findAnswers sample_lib (loaded sample_lib faq_txt) (JString (js ''qqqq'')) 3 =
     Inr \<lparr>answer = None, suggestions = []\<rparr>"
    using findAnswers_nonblank [OF nb] match_question_fallback [OF nc]
      fuzzy_fallback_none_accepted [OF fu none]
    by (simp add: search_qqqq)
  moreover have "map q (take 3 (faqs (loaded sample_lib faq_txt))) =
      [js ''How do I reset my password?'', js ''How do I contact support?'']"
    by (simp add: loaded_faq_txt)
  ultimately show ?thesis using nb search_qqqq by simp
qed

subsection \<open>C5\<close>

text \<open>
  Claim C5, with the failure counter. For a missing, falsy or white-space-only question,
  \<open>findAnswers\<close> returns a \<^verbatim>\<open>null\<close> answer and no suggestions, whatever the corpus, the
  indexes and the libraries are. \<^verbatim>\<open>/ask\<close> counts the call as a failure: it forwards that
  result unless the counter thereby reaches \<open>FAIL_LIMIT\<close>, and then it responds with the
  escalation message.
\<close>

theorem blank_query:
  assumes "falsy v \<or> (\<exists>s. v = JString s \<and> (\<forall>c\<in>set s. is_space c))"
  shows "findAnswers L st v k = Inr \<lparr>answer = None, suggestions = []\<rparr> \<and>
         ask L st v =
           (if failCount st + 1 \<ge> FAIL_LIMIT then (st\<lparr>failCount := 0\<rparr>, Json 200 escalation)
            else (st\<lparr>failCount := failCount st + 1\<rparr>,
                  Json 200 \<lparr>answer = None, suggestions = []\<rparr>))"
proof -
  have "findAnswers L st v k' = Inr \<lparr>answer = None, suggestions = []\<rparr>" for k'
    using assms by (rule findAnswers_blank)
  then show ?thesis
    by (simp add: ask_cases truthy_answer_def)
qed

theorem blank_query_witness:
  "list_all is_space (js ''  '') \<and>
   findAnswers sample_lib (loaded sample_lib faq_txt) (JString (js ''  '')) 3 =
     Inr \<lparr>answer = None, suggestions = []\<rparr> \<and>
   snd (ask sample_lib (loaded sample_lib faq_txt) (JString (js ''  ''))) =
     Json 200 \<lparr>answer = None, suggestions = []\<rparr> \<and>
   failCount (fst (ask sample_lib (loaded sample_lib faq_txt) (JString (js ''  '')))) = 1"
proof -
  have sp: "\<forall>c\<in>set (js ''  ''). is_space c"
    by (simp add: js_def is_space_def)
  then have "falsy (JString (js ''  '')) \<or>
      (\<exists>s. JString (js ''  '') = JString s \<and> (\<forall>c\<in>set s. is_space c))"
    by blast
  from blank_query [OF this, of sample_lib "loaded sample_lib faq_txt" 3] sp
  show ?thesis
    by (simp add: failCount_loaded FAIL_LIMIT_def list_all_iff)
qed

text \<open>The third blank question in a row is answered by the escalation message.\<close>

theorem blank_query_counterexample:
  "snd (serve sample_lib (loaded sample_lib faq_txt)
          [Ask (JString []), Ask (JString (js ''  '')), Ask JUndefined]) =
     [Json 200 \<lparr>answer = None, suggestions = []\<rparr>,
      Json 200 \<lparr>answer = None, suggestions = []\<rparr>,
      Json 200 escalation] \<and>
   Json 200 escalation \<noteq> Json 200 \<lparr>answer = None, suggestions = []\<rparr>"
proof -
  have b1: "findAnswers L st (JString []) 3 = Inr \<lparr>answer = None, suggestions = []\<rparr>" for L st
    by simp
  have b2: "findAnswers L st (JString (js ''  '')) 3 = Inr \<lparr>answer = None, suggestions = []\<rparr>" for L st
    by (rule findAnswers_blank) (simp add: js_def is_space_def)
  have b3: "findAnswers L st JUndefined 3 = Inr \<lparr>answer = None, suggestions = []\<rparr>" for L st
    by simp
  show ?thesis
    unfolding serve.simps handle.simps ask_cases b1 b2 b3
    by (simp add: failCount_loaded FAIL_LIMIT_def truthy_answer_def escalation_def)
qed

subsection \<open>C6\<close>

text \<open>
  Claim C6, under the conditions it needs. \<open>preprocess\<close> removes stop words before it
  stems, so a stem that happens to be a stop word is removed only by a second pass. The
  second pass changes nothing when the output of the first is left alone by normalization
  and lower-casing and each of its tokens consists of characters the cleaning step keeps
  and, if it contains a letter, is neither a stop word nor changed by the stemmer.
\<close>

theorem preprocess_idempotent_on_clean_output:
  assumes fixed: "toLowerCase L (normalizeNFC L (preprocess L x)) = preprocess L x"
    and toks: "\<forall>t\<in>set (processed L x).
                 (\<forall>c\<in>set t. is_az c \<or> is_digit c \<or> is_bangla c) \<and>
                 (has_az t \<longrightarrow> t \<notin> set (stopwords L) \<and> stem L t = t)"
  shows "preprocess L (preprocess L x) = preprocess L x"
proof (cases "preprocess L x = []")
  case True
  then show ?thesis by (simp add: preprocess_def)
next
  case False
  then have px: "preprocess L x = join_sp (processed L x)"
    by (simp add: preprocess_def split: if_splits)
  let ?ts = "processed L x"
  have words: "\<forall>t\<in>set ?ts. t \<noteq> [] \<and> (\<forall>c\<in>set t. \<not> is_space c)"
    using toks processed_nonempty allowed_not_space by blast
  have "\<forall>c\<in>set (join_sp ?ts). is_az c \<or> is_bangla c \<or> is_digit c \<or> is_space c"
    using set_join_sp [of _ ?ts] toks is_space_SP by blast
  then have cl: "clean (join_sp ?ts) = join_sp ?ts"
    by (rule clean_id)
  have tk: "filter_Boolean (split_ws (join_sp ?ts)) = ?ts"
    using words by (rule tokens_join_sp)
  have pt: "map (process_token L) ?ts = ?ts"
    using toks by (intro map_idI) (simp add: process_token_def)
  have fb: "filter_Boolean ?ts = ?ts"
    using words by (simp add: filter_Boolean_def)
  have "processed L (join_sp ?ts) = ?ts"
    using fixed unfolding px
    by (simp add: processed_def [of L "join_sp ?ts"] Let_def cl tk pt fb)
  then show ?thesis
    using False unfolding px by (simp add: preprocess_def)
qed

theorem preprocess_idempotent_on_clean_output_witness:
  "processed sample_lib (js ''How do I reset my Password?'') = [js ''reset'', js ''password''] \<and>
   preprocess sample_lib (js ''How do I reset my Password?'') = js ''reset password'' \<and>
   toLowerCase sample_lib (normalizeNFC sample_lib (js ''reset password'')) = js ''reset password'' \<and>
   js ''reset'' \<notin> set (stopwords sample_lib) \<and> stem sample_lib (js ''reset'') = js ''reset'' \<and>
   js ''password'' \<notin> set (stopwords sample_lib) \<and> stem sample_lib (js ''password'') = js ''password'' \<and>
   preprocess sample_lib (js ''reset password'') = js ''reset password''"
proof -
  have fixed: "toLowerCase sample_lib (normalizeNFC sample_lib (js ''reset password'')) =
      js ''reset password''"
    by (simp add: js_def sample_lib_def ascii_lower_def)
  have r: "js ''reset'' \<notin> set (stopwords sample_lib) \<and> stem sample_lib (js ''reset'') = js ''reset''"
    by (simp add: strdefs libdefs)
  have p: "js ''password'' \<notin> set (stopwords sample_lib) \<and>
      stem sample_lib (js ''password'') = js ''password''"
    by (simp add: strdefs libdefs)
  have al: "(\<forall>c\<in>set (js ''reset''). is_az c \<or> is_digit c \<or> is_bangla c) \<and>
      (\<forall>c\<in>set (js ''password''). is_az c \<or> is_digit c \<or> is_bangla c)"
    by (simp add: js_def is_az_def)
  have "preprocess sample_lib (preprocess sample_lib (js ''How do I reset my Password?'')) =
      preprocess sample_lib (js ''How do I reset my Password?'')"
    by (rule preprocess_idempotent_on_clean_output)
       (simp_all add: preprocess_reset_question processed_reset_question fixed r p al)
  then have "preprocess sample_lib (js ''reset password'') = js ''reset password''"
    by (simp only: preprocess_reset_question)
  with processed_reset_question preprocess_reset_question fixed r p show ?thesis
    by blast
qed

text \<open>\<^verbatim>\<open>makes\<close> is no stop word and its stem is \<^verbatim>\<open>make\<close>, which is one: the first pass
  yields \<^verbatim>\<open>make\<close>, the second the empty string.\<close>

theorem preprocess_idempotent_counterexample:
  "preprocess sample_lib (js ''makes'') = js ''make'' \<and>
   preprocess sample_lib (preprocess sample_lib (js ''makes'')) = [] \<and>
   js ''make'' \<noteq> []"
proof -
  have one: "preprocess sample_lib (js ''makes'') = js ''make''"
    by (simp add: strdefs libdefs Let_def)
  have two: "preprocess sample_lib (js ''make'') = []"
    by (simp add: strdefs libdefs Let_def)
  show ?thesis unfolding one two by (simp add: js_def)
qed

subsection \<open>C7\<close>

text \<open>
  Claim C7. The claim lets only synonyms of a single word into the expanded query. The
  test of line 241 leaves a synonym out only when it contains the character U+0020: the
  set \<open>expanded\<close> holds exactly the words of the query and the lower-cased forms of all
  the synonyms without that character which the lookups returned, and \<open>expandQuery\<close>
  returns the members joined by spaces. WordNet joins the words of a lemma with
  underscores, so a synonym of several words passes the test.
\<close>

theorem expandQuery_keeps_underscore_synonyms:
  "set (expanded L qy) =
     set (query_words L qy) \<union>
     set (map (toLowerCase L) (filter (\<lambda>s. SP \<notin> set s) (returned_synonyms L qy))) \<and>
   expandQuery L qy = (if qy = [] then [] else join_sp (expanded L qy))"
proof (intro conjI)
  show "set (expanded L qy) =
     set (query_words L qy) \<union>
     set (map (toLowerCase L) (filter (\<lambda>s. SP \<notin> set s) (returned_synonyms L qy)))"
    by (rule set_expanded)
  show "expandQuery L qy = (if qy = [] then [] else join_sp (expanded L qy))"
    by (simp add: expandQuery_def)
qed

text \<open>The lookup of \<^verbatim>\<open>book\<close> returns \<^verbatim>\<open>record_book\<close>, \<^verbatim>\<open>Christian_Bible\<close>,
  \<^verbatim>\<open>Good_Book\<close> and \<^verbatim>\<open>Word_of_God\<close> among its synonyms; all four enter the expanded
  query.\<close>

theorem expandQuery_keeps_underscore_synonyms_witness:
  "query_words sample_lib (js ''my book'') = [js ''my'', js ''book''] \<and>
   returned_synonyms sample_lib (js ''my book'') =
     [js ''record'', js ''record_book'', js ''book'', js ''Bible'', js ''Christian_Bible'',
      js ''Book'', js ''Good_Book'', js ''Word_of_God''] \<and>
   set (expanded sample_lib (js ''my book'')) =
     {js ''my'', js ''book'', js ''record'', js ''record_book'', js ''bible'',
      js ''christian_bible'', js ''good_book'', js ''word_of_god''} \<and>
   expandQuery sample_lib (js ''my book'') =
     js ''my book record record_book bible christian_bible good_book word_of_god''"
proof -
  note T = expandQuery_keeps_underscore_synonyms [of sample_lib "js ''my book''",
      unfolded words_my_book synonyms_my_book]
  from T have "set (expanded sample_lib (js ''my book'')) =
      set [js ''my'', js ''book''] \<union>
      set (map (toLowerCase sample_lib)
             (filter (\<lambda>s. SP \<notin> set s)
                [js ''record'', js ''record_book'', js ''book'', js ''Bible'',
                 js ''Christian_Bible'', js ''Book'', js ''Good_Book'', js ''Word_of_God'']))"
    by blast
  then have e: "set (expanded sample_lib (js ''my book'')) =
     {js ''my'', js ''book'', js ''record'', js ''record_book'', js ''bible'',
      js ''christian_bible'', js ''good_book'', js ''word_of_god''}"
    by (auto simp add: js_def sample_lib_def ascii_lower_def SP_def)
  from T have "expandQuery sample_lib (js ''my book'') =
      (if js ''my book'' = [] then [] else join_sp (expanded sample_lib (js ''my book'')))"
    by blast
  then have x: "expandQuery sample_lib (js ''my book'') = join_sp (expanded sample_lib (js ''my book''))"
    by (simp add: js_def)
  have "join_sp (expanded sample_lib (js ''my book'')) =
      js ''my book record record_book bible christian_bible good_book word_of_god''"
    unfolding expanded_my_book by (simp add: js_def SP_def)
  with e x words_my_book synonyms_my_book show ?thesis by simp
qed

subsection \<open>C8\<close>




subsection \<open>C9\<close>

text \<open>
  Claim C9. When reading the corpus file throws, \<open>loadFaqs\<close> fails before it assigns
  anything: \<^verbatim>\<open>/reload\<close> answers 500 \<^verbatim>\<open>reload failed\<close>, and the FAQ list, the
  tf-idf documents and the Fuse index are those of the state before the request.
\<close>

theorem reload_failure_keeps_snapshot:
  "loadFaqs L (Inl e) st = Inl e \<and>
   reload L st (Inl e) = (st, Status 500 ''reload failed'') \<and>
   faqs (fst (reload L st (Inl e))) = faqs st \<and>
   documents (fst (reload L st (Inl e))) = documents st \<and>
   fuse (fst (reload L st (Inl e))) = fuse st"
  by (simp add: reload_def loadFaqs_def)

theorem reload_failure_keeps_snapshot_witness:
  "serve sample_lib (loaded sample_lib faq_txt)
     [Reload (Inl IOError), Ask (JString (js ''reset password''))] =
     (loaded sample_lib faq_txt,
      [Status 500 ''reload failed'',
       Json 200 \<lparr>answer = Some (js ''Use the reset link.''), suggestions = []\<rparr>])"
proof -
  have "ask sample_lib (loaded sample_lib faq_txt) (JString (js ''reset password'')) =
      (loaded sample_lib faq_txt,
       Json 200 \<lparr>answer = Some (js ''Use the reset link.''), suggestions = []\<rparr>)"
    unfolding ask_cases find_reset_password
    by (simp add: truthy_answer_def js_def loaded_reset)
  then show ?thesis
    using reload_failure_keeps_snapshot [of sample_lib IOError "loaded sample_lib faq_txt"]
    by simp
qed

subsection \<open>C10\<close>

text \<open>
  Claim C10. Starting from 0, the failure counter is at least 0 and below \<open>FAIL_LIMIT\<close>
  after every sequence of requests, and a further \<^verbatim>\<open>/ask\<close> on which \<open>findAnswers\<close>
  returns leaves it at 0 or one higher. (When \<open>findAnswers\<close> throws, and on \<^verbatim>\<open>/reload\<close>,
  the counter stays where it was.)
\<close>

theorem failCount_below_limit:
  assumes "failCount st = 0"
  shows "0 \<le> failCount (fst (serve L st rs)) \<and>
         failCount (fst (serve L st rs)) < FAIL_LIMIT \<and>
         (\<forall>v r. findAnswers L (fst (serve L st rs)) v 3 = Inr r \<longrightarrow>
            failCount (fst (ask L (fst (serve L st rs)) v)) = 0 \<or>
            failCount (fst (ask L (fst (serve L st rs)) v)) = failCount (fst (serve L st rs)) + 1)"
  using assms failCount_serve [of st L rs] failCount_ask_returns [of L "fst (serve L st rs)"]
  by (simp add: FAIL_LIMIT_def)

theorem failCount_below_limit_witness:
  "failCount (loaded sample_lib faq_txt) = 0 \<and>
   failCount (fst (serve sample_lib (loaded sample_lib faq_txt)
                     [Ask JNull, Ask (JString []), Ask JUndefined, Ask JNull])) = 1 \<and>
   0 \<le> failCount (fst (serve sample_lib (loaded sample_lib faq_txt)
                     [Ask JNull, Ask (JString []), Ask JUndefined, Ask JNull])) \<and>
   failCount (fst (serve sample_lib (loaded sample_lib faq_txt)
                     [Ask JNull, Ask (JString []), Ask JUndefined, Ask JNull])) < FAIL_LIMIT"
  using failCount_below_limit [of "loaded sample_lib faq_txt" sample_lib
      "[Ask JNull, Ask (JString []), Ask JUndefined, Ask JNull]"]
  by (simp add: failCount_loaded ask_cases FAIL_LIMIT_def truthy_answer_def)

end
